theory Spec2Isabelle
  imports Main "HOL-Library.Product_Lexorder" "HOL-Library.Word" "HOL-Library.Multiset"
begin

section \<open>Python values, exceptions and library functions used by the program\<close>

text \<open>
  The program is Python. Its dictionaries hold JSON scalars; \<open>pyval\<close> covers \<open>None\<close>,
  booleans, integers and strings (floating point values are outside the model).
  Strings are byte strings here, so a non-ASCII character of a Python string is its
  UTF-8 bytes.
\<close>

datatype pyval = PNone | PBool bool | PInt int | PStr string

text \<open>The exceptions that occur; the message texts of library exceptions are abbreviated,
  and no property below depends on them.\<close>

datatype exn =
    DeviceError
  | ValueError string
  | TypeError string

text \<open>Python truthiness (\<open>if not x\<close>, \<open>a and b\<close>).\<close>

fun truthy :: "pyval \<Rightarrow> bool" where
  "truthy PNone = False"
| "truthy (PBool b) = b"
| "truthy (PInt n) = (n \<noteq> 0)"
| "truthy (PStr s) = (s \<noteq> [])"

text \<open>\<open>str.isspace\<close> on the ASCII range and \<open>str.strip()\<close>.\<close>

definition py_isspace :: "char \<Rightarrow> bool" where
  "py_isspace c = (let n = (of_char c :: nat) in (9 \<le> n \<and> n \<le> 13) \<or> (28 \<le> n \<and> n \<le> 32))"

definition strip :: "string \<Rightarrow> string" where
  "strip s = rev (dropWhile py_isspace (rev (dropWhile py_isspace s)))"

text \<open>Decimal digits, \<open>str(n)\<close> for a non-negative integer, zero padding of \<open>strftime\<close>.\<close>

definition digit_char :: "nat \<Rightarrow> char" where
  "digit_char n = ''0123456789'' ! n"

fun str_nat :: "nat \<Rightarrow> string" where
  "str_nat n = (if n < 10 then [digit_char n] else str_nat (n div 10) @ [digit_char (n mod 10)])"

declare str_nat.simps [simp del]

definition str_int :: "int \<Rightarrow> string" where
  "str_int i = (if i < 0 then CHR ''-'' # str_nat (nat (- i)) else str_nat (nat i))"

definition pad2 :: "nat \<Rightarrow> string" where
  "pad2 n = (if n < 10 then CHR ''0'' # str_nat n else str_nat n)"

definition pad4 :: "nat \<Rightarrow> string" where
  "pad4 n = replicate (4 - length (str_nat n)) (CHR ''0'') @ str_nat n"

subsection \<open>Naive datetimes\<close>

text \<open>
  A \<open>datetime\<close> is (year, month, day, hour, minute, second, microsecond). Python compares
  naive datetimes field by field in this order, which is the lexicographic order of the
  tuple.
\<close>

type_synonym datetime = "nat \<times> nat \<times> nat \<times> nat \<times> nat \<times> nat \<times> nat"

definition dt_date :: "datetime \<Rightarrow> nat \<times> nat \<times> nat" where
  "dt_date t = (case t of (y, m, d, _) \<Rightarrow> (y, m, d))"

definition midnight :: "nat \<times> nat \<times> nat \<Rightarrow> datetime" where
  "midnight ymd = (case ymd of (y, m, d) \<Rightarrow> (y, m, d, 0, 0, 0, 0))"

definition is_leap :: "nat \<Rightarrow> bool" where
  "is_leap y = (y mod 4 = 0 \<and> (y mod 100 \<noteq> 0 \<or> y mod 400 = 0))"

definition days_in_month :: "nat \<Rightarrow> nat \<Rightarrow> nat" where
  "days_in_month y m =
     (if m = 2 then (if is_leap y then 29 else 28)
      else if m = 4 \<or> m = 6 \<or> m = 9 \<or> m = 11 then 30 else 31)"

definition days_before_year :: "nat \<Rightarrow> nat" where
  "days_before_year year = (let y = year - 1 in y * 365 + y div 4 - y div 100 + y div 400)"

definition days_before_month :: "nat \<Rightarrow> nat \<Rightarrow> nat" where
  "days_before_month y m = sum_list (map (days_in_month y) [1..<m])"

definition ymd2ord :: "nat \<times> nat \<times> nat \<Rightarrow> nat" where
  "ymd2ord ymd = (case ymd of (y, m, d) \<Rightarrow> days_before_year y + days_before_month y m + d)"

definition valid_date :: "nat \<times> nat \<times> nat \<Rightarrow> bool" where
  "valid_date ymd =
     (case ymd of (y, m, d) \<Rightarrow>
        1 \<le> y \<and> y \<le> 9999 \<and> 1 \<le> m \<and> m \<le> 12 \<and> 1 \<le> d \<and> d \<le> days_in_month y m)"

definition valid_datetime :: "datetime \<Rightarrow> bool" where
  "valid_datetime t =
     (case t of (y, m, d, hh, mi, ss, us) \<Rightarrow>
        valid_date (y, m, d) \<and> hh < 24 \<and> mi < 60 \<and> ss < 60 \<and> us < 1000000)"

text \<open>Microseconds since the start of day 0, and \<open>(a - b).days\<close> (floor division).\<close>

definition to_micro :: "datetime \<Rightarrow> int" where
  "to_micro t =
     (case t of (y, m, d, hh, mi, ss, us) \<Rightarrow>
        (((int (ymd2ord (y, m, d)) * 24 + int hh) * 60 + int mi) * 60 + int ss) * 1000000 + int us)"

definition delta_days :: "datetime \<Rightarrow> datetime \<Rightarrow> int" where
  "delta_days a b = (to_micro a - to_micro b) div 86400000000"

text \<open>\<open>strftime("%Y-%m-%d %H:%M:%S")\<close> and \<open>strftime("%Y-%m-%d")\<close>.\<close>

definition strftime_date :: "nat \<times> nat \<times> nat \<Rightarrow> string" where
  "strftime_date ymd = (case ymd of (y, m, d) \<Rightarrow> pad4 y @ ''-'' @ pad2 m @ ''-'' @ pad2 d)"

definition strftime :: "datetime \<Rightarrow> string" where
  "strftime t =
     (case t of (y, m, d, hh, mi, ss, us) \<Rightarrow>
        strftime_date (y, m, d) @ '' '' @ pad2 hh @ '':'' @ pad2 mi @ '':'' @ pad2 ss)"

text \<open>
  \<open>datetime.strptime(s, "%Y-%m-%d")\<close>: four digits for the year, one or two digits for
  the month, one or two digits (or a space and a digit) for the day, separated by \<open>-\<close>,
  nothing after the day; the date must exist. A string of another shape raises
  \<open>ValueError\<close>, a value that is not a string \<open>TypeError\<close>. The result is the date at
  midnight.
\<close>

definition is_digit :: "char \<Rightarrow> bool" where
  "is_digit c = (let n = (of_char c :: nat) in 48 \<le> n \<and> n \<le> 57)"

definition digit_val :: "char \<Rightarrow> nat" where
  "digit_val c = of_char c - 48"

definition number_val :: "string \<Rightarrow> nat" where
  "number_val s = foldl (\<lambda>acc c. 10 * acc + digit_val c) 0 s"

fun split_dash :: "string \<Rightarrow> string list" where
  "split_dash [] = [[]]"
| "split_dash (c # cs) =
     (if c = CHR ''-'' then [] # split_dash cs
      else (case split_dash cs of [] \<Rightarrow> [[c]] | w # ws \<Rightarrow> (c # w) # ws))"

definition digits_field :: "string \<Rightarrow> nat option" where
  "digits_field s =
     (if (length s = 1 \<or> length s = 2) \<and> list_all is_digit s then Some (number_val s)
      else None)"

definition day_field :: "string \<Rightarrow> nat option" where
  "day_field s =
     (case s of
        [sp, c] \<Rightarrow> if sp = CHR '' '' \<and> is_digit c then Some (digit_val c) else digits_field s
      | _ \<Rightarrow> digits_field s)"

definition strptime_date :: "string \<Rightarrow> exn + datetime" where
  "strptime_date s =
     (case split_dash s of
        [ys, ms, ds] \<Rightarrow>
          (case (digits_field ms, day_field ds) of
             (Some m, Some d) \<Rightarrow>
               if length ys = 4 \<and> list_all is_digit ys \<and> valid_date (number_val ys, m, d)
               then Inr (midnight (number_val ys, m, d))
               else Inl (ValueError ''time data does not match format %Y-%m-%d'')
           | _ \<Rightarrow> Inl (ValueError ''time data does not match format %Y-%m-%d''))
      | _ \<Rightarrow> Inl (ValueError ''time data does not match format %Y-%m-%d''))"

definition strptime :: "pyval \<Rightarrow> exn + datetime" where
  "strptime v =
     (case v of
        PStr s \<Rightarrow> strptime_date s
      | _ \<Rightarrow> Inl (TypeError ''strptime() argument 1 must be str''))"

subsection \<open>Bytes and their hexadecimal text\<close>

type_synonym byte = "8 word"

definition hex_digit :: "nat \<Rightarrow> char" where
  "hex_digit n = ''0123456789abcdef'' ! n"

definition hex_value :: "char \<Rightarrow> nat option" where
  "hex_value c =
     (let n = (of_char c :: nat) in
        if 48 \<le> n \<and> n \<le> 57 then Some (n - 48)
        else if 97 \<le> n \<and> n \<le> 102 then Some (n - 87)
        else if 65 \<le> n \<and> n \<le> 70 then Some (n - 55)
        else None)"

text \<open>\<open>bytes.hex()\<close>: two lower-case digits per byte.\<close>

fun bytes_hex :: "byte list \<Rightarrow> string" where
  "bytes_hex [] = []"
| "bytes_hex (b # bs) = hex_digit (unat b div 16) # hex_digit (unat b mod 16) # bytes_hex bs"

text \<open>
  \<open>bytes.fromhex(s)\<close>: ASCII whitespace between bytes is skipped, each byte is two
  hexadecimal digits of either case; anything else raises \<open>ValueError\<close>.
\<close>

definition hex_space :: "char \<Rightarrow> bool" where
  "hex_space c = (let n = (of_char c :: nat) in n = 32 \<or> (9 \<le> n \<and> n \<le> 13))"

fun bytes_fromhex :: "string \<Rightarrow> exn + byte list" where
  "bytes_fromhex [] = Inr []"
| "bytes_fromhex [c] =
     (if hex_space c then Inr [] else Inl (ValueError ''non-hexadecimal number found in fromhex() arg''))"
| "bytes_fromhex (c # d # ds) =
     (if hex_space c then bytes_fromhex (d # ds)
      else (case (hex_value c, hex_value d) of
              (Some h, Some l) \<Rightarrow>
                (case bytes_fromhex ds of
                   Inl e \<Rightarrow> Inl e
                 | Inr bs \<Rightarrow> Inr (of_nat (16 * h + l) # bs))
            | _ \<Rightarrow> Inl (ValueError ''non-hexadecimal number found in fromhex() arg'')))"

section \<open>The biometric device\<close>

text \<open>
  Modelled from the spec: the vendor device driver is not part of the repository; section 6
  of the specification gives its capability interface (getUsers, getTemplates, deleteUser,
  saveUserTemplate, getAttendance), and the design notes allow an in-memory device in its
  place. The device below is such an in-memory device. Every call is recorded in
  \<open>dev_log\<close>. A call may raise: \<open>dev_faults\<close> is the script of the coming calls, one
  flag per call, \<open>True\<close> for a call that raises and leaves the device data as it is; when
  the script is used up, calls succeed.
\<close>

record zk_user =
  u_uid :: int
  u_name :: string
  u_privilege :: int
  u_password :: string
  u_group_id :: string
  u_user_id :: string
  u_card :: int

record finger =
  f_uid :: int
  f_fid :: int
  f_valid :: int
  f_template :: "byte list"
  f_mark :: string

record attendance =
  a_user_id :: string
  a_timestamp :: datetime

datatype dev_call =
    GetUsers
  | GetTemplates
  | DeleteUser int
  | SaveUserTemplate int
  | GetAttendance

record device =
  dev_users :: "zk_user list"
  dev_templates :: "finger list"
  dev_attendance :: "attendance list"
  dev_faults :: "bool list"
  dev_log :: "dev_call list"

definition issue :: "dev_call \<Rightarrow> device \<Rightarrow> bool \<times> device" where
  "issue c d =
     (case dev_faults d of
        [] \<Rightarrow> (False, d\<lparr>dev_log := dev_log d @ [c]\<rparr>)
      | b # bs \<Rightarrow> (b, d\<lparr>dev_faults := bs, dev_log := dev_log d @ [c]\<rparr>))"

definition get_users :: "device \<Rightarrow> (exn + zk_user list) \<times> device" where
  "get_users d =
     (case issue GetUsers d of
        (True, d') \<Rightarrow> (Inl DeviceError, d')
      | (False, d') \<Rightarrow> (Inr (dev_users d'), d'))"

definition get_templates :: "device \<Rightarrow> (exn + finger list) \<times> device" where
  "get_templates d =
     (case issue GetTemplates d of
        (True, d') \<Rightarrow> (Inl DeviceError, d')
      | (False, d') \<Rightarrow> (Inr (dev_templates d'), d'))"

definition get_attendance :: "device \<Rightarrow> (exn + attendance list) \<times> device" where
  "get_attendance d =
     (case issue GetAttendance d of
        (True, d') \<Rightarrow> (Inl DeviceError, d')
      | (False, d') \<Rightarrow> (Inr (dev_attendance d'), d'))"

definition delete_user :: "device \<Rightarrow> int \<Rightarrow> (exn + unit) \<times> device" where
  "delete_user d uid =
     (case issue (DeleteUser uid) d of
        (True, d') \<Rightarrow> (Inl DeviceError, d')
      | (False, d') \<Rightarrow>
          (Inr (),
           d'\<lparr>dev_users := filter (\<lambda>u. u_uid u \<noteq> uid) (dev_users d'),
              dev_templates := filter (\<lambda>t. f_uid t \<noteq> uid) (dev_templates d')\<rparr>))"

text \<open>
  An upload replaces the user with the same device identity and that identity's
  templates; the uploaded templates are stored under the uploaded user's identity.
\<close>

definition save_user_template :: "device \<Rightarrow> zk_user \<Rightarrow> finger list \<Rightarrow> (exn + unit) \<times> device" where
  "save_user_template d user fingers =
     (case issue (SaveUserTemplate (u_uid user)) d of
        (True, d') \<Rightarrow> (Inl DeviceError, d')
      | (False, d') \<Rightarrow>
          (Inr (),
           d'\<lparr>dev_users := filter (\<lambda>u. u_uid u \<noteq> u_uid user) (dev_users d') @ [user],
              dev_templates := filter (\<lambda>t. f_uid t \<noteq> u_uid user) (dev_templates d')
                               @ map (\<lambda>t. t\<lparr>f_uid := u_uid user\<rparr>) fingers\<rparr>))"

section \<open>TemplateManager (template\_manager.py)\<close>

text \<open>
  \<open>templates_db\<close> is the dictionary held in memory, \<open>templates_file\<close> the JSON document
  last written by \<open>save_templates\<close>. A snapshot is the dictionary
  \<open>{'user': ..., 'templates': [...]}\<close> that \<open>backup_user_templates\<close> builds; the key
  \<open>card\<close> may be missing in a stored document (\<open>user_data.get('card', 0)\<close>).
\<close>

record user_data =
  ud_uid :: int
  ud_name :: string
  ud_privilege :: int
  ud_password :: string
  ud_group_id :: string
  ud_user_id :: string
  ud_card :: "int option"

record template_data =
  td_uid :: int
  td_fid :: int
  td_valid :: int
  td_template :: string
  td_mark :: string

record snapshot =
  b_user :: user_data
  b_templates :: "template_data list"

record template_manager =
  templates_db :: "string \<rightharpoonup> snapshot"
  templates_file :: "string \<rightharpoonup> snapshot"

text \<open>
  \<open>save_templates\<close> writes the whole dictionary to the file. (A failing write is caught and
  printed by the source and changes nothing in memory; the write itself is taken to
  succeed here.)
\<close>

definition save_templates :: "template_manager \<Rightarrow> template_manager" where
  "save_templates tm = tm\<lparr>templates_file := templates_db tm\<rparr>"

definition user_entry :: "zk_user \<Rightarrow> user_data" where
  "user_entry user =
     \<lparr>ud_uid = u_uid user, ud_name = u_name user, ud_privilege = u_privilege user,
      ud_password = u_password user, ud_group_id = u_group_id user,
      ud_user_id = u_user_id user, ud_card = Some (u_card user)\<rparr>"

definition template_entry :: "finger \<Rightarrow> template_data" where
  "template_entry t =
     \<lparr>td_uid = f_uid t, td_fid = f_fid t, td_valid = f_valid t,
      td_template = bytes_hex (f_template t), td_mark = f_mark t\<rparr>"

definition backup_user_templates ::
  "template_manager \<Rightarrow> device \<Rightarrow> string \<Rightarrow> bool \<times> device \<times> template_manager" where
  "backup_user_templates tm conn user_id =
     (case get_users conn of
        (Inl e, c1) \<Rightarrow> (False, c1, tm)
      | (Inr users, c1) \<Rightarrow>
          (case find (\<lambda>u. u_user_id u = user_id) users of
             None \<Rightarrow> (False, c1, tm)
           | Some user \<Rightarrow>
               (case get_templates c1 of
                  (Inl e, c2) \<Rightarrow> (False, c2, tm)
                | (Inr all_templates, c2) \<Rightarrow>
                    (let user_templates = filter (\<lambda>t. f_uid t = u_uid user) all_templates in
                     if user_templates = [] then (False, c2, tm)
                     else (True, c2,
                           save_templates
                             (tm\<lparr>templates_db := (templates_db tm)(user_id \<mapsto>
                                   \<lparr>b_user = user_entry user,
                                    b_templates = map template_entry user_templates\<rparr>)\<rparr>))))))"

text \<open>
  The driver's \<open>Finger\<close> constructor; its \<open>mark\<close> is a digest of the payload's first and
  last eight bytes.
\<close>

definition Finger :: "int \<Rightarrow> int \<Rightarrow> int \<Rightarrow> byte list \<Rightarrow> finger" where
  "Finger uid fid valid template =
     \<lparr>f_uid = uid, f_fid = fid, f_valid = valid, f_template = template,
      f_mark = bytes_hex (take 8 template) @ ''...''
               @ bytes_hex (drop (length template - 8) template)\<rparr>"

text \<open>The loop of \<open>restore_user_templates\<close> that rebuilds the templates; a payload that is
  not hexadecimal text raises.\<close>

fun restore_fingers :: "template_data list \<Rightarrow> exn + finger list" where
  "restore_fingers [] = Inr []"
| "restore_fingers (t_data # rest) =
     (case bytes_fromhex (td_template t_data) of
        Inl e \<Rightarrow> Inl e
      | Inr template_bytes \<Rightarrow>
          (case restore_fingers rest of
             Inl e \<Rightarrow> Inl e
           | Inr templates \<Rightarrow>
               Inr (Finger (td_uid t_data) (td_fid t_data) (td_valid t_data) template_bytes
                    # templates)))"

definition restore_user_templates ::
  "template_manager \<Rightarrow> device \<Rightarrow> string \<Rightarrow> bool \<times> device \<times> template_manager" where
  "restore_user_templates tm conn user_id =
     (case templates_db tm user_id of
        None \<Rightarrow> (False, conn, tm)
      | Some backup \<Rightarrow>
          (let user_data = b_user backup;
               user = \<lparr>u_uid = ud_uid user_data, u_name = ud_name user_data,
                       u_privilege = ud_privilege user_data, u_password = ud_password user_data,
                       u_group_id = ud_group_id user_data, u_user_id = ud_user_id user_data,
                       u_card = (case ud_card user_data of None \<Rightarrow> 0 | Some c \<Rightarrow> c)\<rparr>
           in case restore_fingers (b_templates backup) of
                Inl e \<Rightarrow> (False, conn, tm)
              | Inr templates \<Rightarrow>
                  (case save_user_template conn user templates of
                     (Inl e, c1) \<Rightarrow> (False, c1, tm)
                   | (Inr _, c1) \<Rightarrow> (True, c1, tm))))"

definition has_backup :: "template_manager \<Rightarrow> string \<Rightarrow> bool" where
  "has_backup tm user_id = (user_id \<in> dom (templates_db tm))"

definition delete_backup :: "template_manager \<Rightarrow> string \<Rightarrow> bool \<times> template_manager" where
  "delete_backup tm user_id =
     (if user_id \<in> dom (templates_db tm)
      then (True, save_templates (tm\<lparr>templates_db := (templates_db tm)(user_id := None)\<rparr>))
      else (False, tm))"

definition block_user ::
  "template_manager \<Rightarrow> device \<Rightarrow> string \<Rightarrow> bool \<times> device \<times> template_manager" where
  "block_user tm conn user_id =
     (case backup_user_templates tm conn user_id of
        (False, c1, tm1) \<Rightarrow> (False, c1, tm1)
      | (True, c1, tm1) \<Rightarrow>
          (case get_users c1 of
             (Inl e, c2) \<Rightarrow> (False, c2, tm1)
           | (Inr users, c2) \<Rightarrow>
               (case find (\<lambda>u. u_user_id u = user_id) users of
                  None \<Rightarrow> (False, c2, tm1)
                | Some user \<Rightarrow>
                    (case delete_user c2 (u_uid user) of
                       (Inl e, c3) \<Rightarrow> (False, c3, tm1)
                     | (Inr _, c3) \<Rightarrow> (True, c3, tm1)))))"

definition unblock_user ::
  "template_manager \<Rightarrow> device \<Rightarrow> string \<Rightarrow> bool \<times> device \<times> template_manager" where
  "unblock_user tm conn user_id = restore_user_templates tm conn user_id"

section \<open>MembershipManager (membership\_manager.py)\<close>

text \<open>
  A membership record is a dictionary from keys to JSON scalars, the registry a dictionary
  from user ids to records. \<open>mm_users\<close> is \<open>self.users\<close>, \<open>mm_data_file\<close> the document last
  written by \<open>save_data\<close>, \<open>mm_template_manager\<close> the manager's own \<open>TemplateManager\<close>.
  Every operation that reads the clock takes the current time \<open>now\<close>.
\<close>

type_synonym membership = "string \<rightharpoonup> pyval"

type_synonym registry = "string \<rightharpoonup> membership"

record membership_manager =
  mm_users :: registry
  mm_data_file :: registry
  mm_template_manager :: template_manager

text \<open>\<open>d.get(k)\<close> and \<open>d.get(k, default)\<close>.\<close>

definition dict_get :: "membership \<Rightarrow> string \<Rightarrow> pyval \<Rightarrow> pyval" where
  "dict_get d k dflt = (case d k of None \<Rightarrow> dflt | Some v \<Rightarrow> v)"

text \<open>\<open>str(v)\<close> as an f-string prints it, and \<open>str(e)\<close> of an exception.\<close>

fun py_str :: "pyval \<Rightarrow> string" where
  "py_str PNone = ''None''"
| "py_str (PBool b) = (if b then ''True'' else ''False'')"
| "py_str (PInt n) = str_int n"
| "py_str (PStr s) = s"

fun exn_str :: "exn \<Rightarrow> string" where
  "exn_str DeviceError = ''device error''"
| "exn_str (ValueError m) = m"
| "exn_str (TypeError m) = m"

text \<open>\<open>v + 1\<close>: defined on integers and booleans, a \<open>TypeError\<close> otherwise.\<close>

fun py_add1 :: "pyval \<Rightarrow> exn + pyval" where
  "py_add1 (PInt n) = Inr (PInt (n + 1))"
| "py_add1 (PBool b) = Inr (PInt ((if b then 1 else 0) + 1))"
| "py_add1 v = Inl (TypeError ''unsupported operand type(s) for +'')"

text \<open>The UTF-8 bytes of the accented letters in the program's messages.\<close>

definition i_acute :: string where
  "i_acute = [char_of (195::nat), char_of (173::nat)]"

definition a_acute :: string where
  "a_acute = [char_of (195::nat), char_of (161::nat)]"

definition save_data :: "membership_manager \<Rightarrow> membership_manager" where
  "save_data mm = mm\<lparr>mm_data_file := mm_users mm\<rparr>"

definition validate_membership ::
  "membership_manager \<Rightarrow> datetime \<Rightarrow> string \<Rightarrow> (bool \<times> string) \<times> membership_manager" where
  "validate_membership mm now user_id0 =
     (let user_id = strip user_id0 in
      case mm_users mm user_id of
        None \<Rightarrow> ((False, ''Usuario no registrado localmente''), mm)
      | Some user \<Rightarrow>
          if user ''status'' = Some (PStr ''inactive'') then ((False, ''Usuario inactivo''), mm)
          else if user ''status'' = Some (PStr ''blocked'')
          then ((False, ''Usuario bloqueado temporalmente''), mm)
          else
            (let expiration = dict_get user ''expiration_date'' PNone in
             if \<not> truthy expiration then ((False, ''Sin fecha de vencimiento''), mm)
             else
               (case strptime expiration of
                  Inl e \<Rightarrow> ((False, ''Error validando fecha: '' @ exn_str e), mm)
                | Inr exp_date \<Rightarrow>
                    if now > exp_date
                    then
                      (let user1 = user(''status'' \<mapsto> PStr ''expired'') in
                       ((False, ''Membres'' @ i_acute @ ''a vencida desde '' @ py_str expiration),
                        save_data (mm\<lparr>mm_users := (mm_users mm)(user_id \<mapsto> user1)\<rparr>)))
                    else
                      (let user1 = user(''last_visit'' \<mapsto> PStr (strftime now)) in
                       case py_add1 (dict_get user1 ''visit_count'' (PInt 0)) of
                         Inl e \<Rightarrow>
                           ((False, ''Error validando fecha: '' @ exn_str e),
                            mm\<lparr>mm_users := (mm_users mm)(user_id \<mapsto> user1)\<rparr>)
                       | Inr n \<Rightarrow>
                           (let user2 = user1(''visit_count'' \<mapsto> n) in
                            ((True, ''Membres'' @ i_acute @ ''a activa hasta '' @ py_str expiration),
                             save_data (mm\<lparr>mm_users := (mm_users mm)(user_id \<mapsto> user2)\<rparr>)))))))"

text \<open>
  \<open>add_user\<close>: the keyword arguments \<open>kwargs\<close> are merged last. Python binds the names
  \<open>user_id\<close>, \<open>name\<close>, \<open>expiration_date\<close> and \<open>status\<close> to the parameters, so these keys
  never reach \<open>kwargs\<close>.
\<close>

definition kwargs_dict :: "(string \<times> pyval) list \<Rightarrow> membership" where
  "kwargs_dict kwargs =
     map_of (filter (\<lambda>kv. fst kv \<notin> set [''user_id'', ''name'', ''expiration_date'', ''status''])
               kwargs)"

definition add_user ::
  "membership_manager \<Rightarrow> datetime \<Rightarrow> string \<Rightarrow> string \<Rightarrow> string \<Rightarrow> string
     \<Rightarrow> (string \<times> pyval) list \<Rightarrow> membership_manager" where
  "add_user mm now user_id0 name expiration_date status kwargs =
     (let user_id = strip user_id0 in
      save_data
        (mm\<lparr>mm_users := (mm_users mm)(user_id \<mapsto>
              (Map.empty(''user_id'' \<mapsto> PStr user_id,
                         ''name'' \<mapsto> PStr name,
                         ''expiration_date'' \<mapsto> PStr expiration_date,
                         ''status'' \<mapsto> PStr status,
                         ''created_at'' \<mapsto> PStr (strftime now),
                         ''last_visit'' \<mapsto> PNone,
                         ''visit_count'' \<mapsto> PInt 0)) ++ kwargs_dict kwargs)\<rparr>))"

definition update_expiration ::
  "membership_manager \<Rightarrow> datetime \<Rightarrow> string \<Rightarrow> string \<Rightarrow> bool \<times> membership_manager" where
  "update_expiration mm now user_id0 new_expiration =
     (let user_id = strip user_id0 in
      case mm_users mm user_id of
        None \<Rightarrow> (False, mm)
      | Some user \<Rightarrow>
          (True,
           save_data
             (mm\<lparr>mm_users := (mm_users mm)(user_id \<mapsto>
                   user(''expiration_date'' \<mapsto> PStr new_expiration,
                        ''status'' \<mapsto> PStr ''active'',
                        ''updated_at'' \<mapsto> PStr (strftime now)))\<rparr>)))"

definition block_user_with_backup ::
  "membership_manager \<Rightarrow> datetime \<Rightarrow> device \<Rightarrow> string \<Rightarrow> bool \<times> device \<times> membership_manager" where
  "block_user_with_backup mm now conn user_id0 =
     (let user_id = strip user_id0 in
      case block_user (mm_template_manager mm) conn user_id of
        (True, c1, tm1) \<Rightarrow>
          (let mm1 = mm\<lparr>mm_template_manager := tm1\<rparr> in
           case mm_users mm1 user_id of
             Some user \<Rightarrow>
               (True, c1,
                save_data
                  (mm1\<lparr>mm_users := (mm_users mm1)(user_id \<mapsto>
                         user(''status'' \<mapsto> PStr ''blocked'',
                              ''blocked_at'' \<mapsto> PStr (strftime now)))\<rparr>))
           | None \<Rightarrow> (True, c1, mm1))
      | (False, c1, tm1) \<Rightarrow> (False, c1, mm\<lparr>mm_template_manager := tm1\<rparr>))"

text \<open>\<open>new_expiration\<close> is optional; \<open>if new_expiration:\<close> holds for a non-empty string.\<close>

definition set_expiration :: "string option \<Rightarrow> membership \<Rightarrow> membership" where
  "set_expiration new_expiration user =
     (case new_expiration of
        None \<Rightarrow> user
      | Some e \<Rightarrow> if e = [] then user else user(''expiration_date'' \<mapsto> PStr e))"

definition unblock_user_with_restore ::
  "membership_manager \<Rightarrow> datetime \<Rightarrow> device \<Rightarrow> string \<Rightarrow> string option
     \<Rightarrow> bool \<times> device \<times> membership_manager" where
  "unblock_user_with_restore mm now conn user_id0 new_expiration =
     (let user_id = strip user_id0 in
      case unblock_user (mm_template_manager mm) conn user_id of
        (True, c1, tm1) \<Rightarrow>
          (let mm1 = mm\<lparr>mm_template_manager := tm1\<rparr> in
           case mm_users mm1 user_id of
             Some user \<Rightarrow>
               (True, c1,
                save_data
                  (mm1\<lparr>mm_users := (mm_users mm1)(user_id \<mapsto>
                         (set_expiration new_expiration (user(''status'' \<mapsto> PStr ''active'')))
                           (''unblocked_at'' \<mapsto> PStr (strftime now)))\<rparr>))
           | None \<Rightarrow> (True, c1, mm1))
      | (False, c1, tm1) \<Rightarrow> (False, c1, mm\<lparr>mm_template_manager := tm1\<rparr>))"

definition deactivate_user :: "membership_manager \<Rightarrow> datetime \<Rightarrow> string \<Rightarrow> membership_manager" where
  "deactivate_user mm now user_id0 =
     (let user_id = strip user_id0 in
      case mm_users mm user_id of
        None \<Rightarrow> mm
      | Some user \<Rightarrow>
          save_data
            (mm\<lparr>mm_users := (mm_users mm)(user_id \<mapsto>
                  user(''status'' \<mapsto> PStr ''inactive'',
                       ''deactivated_at'' \<mapsto> PStr (strftime now)))\<rparr>))"

definition reactivate_user ::
  "membership_manager \<Rightarrow> datetime \<Rightarrow> string \<Rightarrow> string option \<Rightarrow> membership_manager" where
  "reactivate_user mm now user_id0 new_expiration =
     (let user_id = strip user_id0 in
      case mm_users mm user_id of
        None \<Rightarrow> mm
      | Some user \<Rightarrow>
          save_data
            (mm\<lparr>mm_users := (mm_users mm)(user_id \<mapsto>
                  (set_expiration new_expiration (user(''status'' \<mapsto> PStr ''active'')))
                    (''reactivated_at'' \<mapsto> PStr (strftime now)))\<rparr>))"

section \<open>AutoBlockManager (auto\_block\_manager.py)\<close>

record log_entry =
  le_user_id :: string
  le_action :: string
  le_detail :: string
  le_timestamp :: string

record auto_block_manager =
  ab_memberships :: registry
  ab_memberships_file :: registry
  ab_template_manager :: template_manager
  auto_block_log :: "log_entry list"

definition save_memberships :: "auto_block_manager \<Rightarrow> auto_block_manager" where
  "save_memberships ab = ab\<lparr>ab_memberships_file := ab_memberships ab\<rparr>"

definition should_block_user :: "auto_block_manager \<Rightarrow> datetime \<Rightarrow> string \<Rightarrow> bool \<times> string" where
  "should_block_user ab now user_id =
     (case ab_memberships ab user_id of
        None \<Rightarrow> (False, ''Usuario no registrado en sistema local'')
      | Some membership \<Rightarrow>
          (let status = dict_get membership ''status'' (PStr ''unknown'') in
           if status = PStr ''blocked'' then (True, ''Ya est'' @ a_acute @ '' bloqueado'')
           else if status = PStr ''inactive'' then (True, ''Usuario inactivo'')
           else
             (let expiration_str = dict_get membership ''expiration_date'' PNone in
              if \<not> truthy expiration_str then (True, ''Sin fecha de vencimiento'')
              else
                (case strptime expiration_str of
                   Inl e \<Rightarrow> (True, ''Error en fecha: '' @ exn_str e)
                 | Inr exp_date \<Rightarrow>
                     if now > exp_date
                     then
                       (let days_expired = delta_days now exp_date in
                        (True, ''Membres'' @ i_acute @ ''a vencida hace '' @ str_int days_expired
                                 @ '' d'' @ i_acute @ ''as''))
                     else (False, ''Membres'' @ i_acute @ ''a activa'')))))"

definition block_user_automatically ::
  "auto_block_manager \<Rightarrow> datetime \<Rightarrow> device \<Rightarrow> string \<Rightarrow> string
     \<Rightarrow> bool \<times> device \<times> auto_block_manager" where
  "block_user_automatically ab now conn user_id reason =
     (case (if \<not> has_backup (ab_template_manager ab) user_id
            then backup_user_templates (ab_template_manager ab) conn user_id
            else (True, conn, ab_template_manager ab)) of
        (False, c1, tm1) \<Rightarrow> (False, c1, ab\<lparr>ab_template_manager := tm1\<rparr>)
      | (True, c1, tm1) \<Rightarrow>
          (let ab1 = ab\<lparr>ab_template_manager := tm1\<rparr> in
           case get_users c1 of
             (Inl e, c2) \<Rightarrow> (False, c2, ab1)
           | (Inr users, c2) \<Rightarrow>
               (case find (\<lambda>u. u_user_id u = user_id) users of
                  None \<Rightarrow> (False, c2, ab1)
                | Some user \<Rightarrow>
                    (case delete_user c2 (u_uid user) of
                       (Inl e, c3) \<Rightarrow> (False, c3, ab1)
                     | (Inr _, c3) \<Rightarrow>
                         (let ab2 =
                            (case ab_memberships ab1 user_id of
                               None \<Rightarrow> ab1
                             | Some m \<Rightarrow>
                                 ab1\<lparr>ab_memberships := (ab_memberships ab1)(user_id \<mapsto>
                                        m(''status'' \<mapsto> PStr ''blocked'',
                                          ''blocked_at'' \<mapsto> PStr (strftime now),
                                          ''block_reason'' \<mapsto> PStr reason,
                                          ''auto_blocked'' \<mapsto> PBool True))\<rparr>);
                              ab3 = save_memberships ab2
                          in (True, c3,
                              ab3\<lparr>auto_block_log := auto_block_log ab3 @
                                    [\<lparr>le_user_id = user_id, le_action = ''auto_block'',
                                      le_detail = reason, le_timestamp = strftime now\<rparr>]\<rparr>))))))"

definition unblock_user_automatically ::
  "auto_block_manager \<Rightarrow> datetime \<Rightarrow> device \<Rightarrow> string \<Rightarrow> string
     \<Rightarrow> bool \<times> device \<times> auto_block_manager" where
  "unblock_user_automatically ab now conn user_id new_expiration =
     (case restore_user_templates (ab_template_manager ab) conn user_id of
        (False, c1, tm1) \<Rightarrow> (False, c1, ab\<lparr>ab_template_manager := tm1\<rparr>)
      | (True, c1, tm1) \<Rightarrow>
          (let ab1 = ab\<lparr>ab_template_manager := tm1\<rparr>;
               ab2 =
                 (case ab_memberships ab1 user_id of
                    None \<Rightarrow> ab1
                  | Some m \<Rightarrow>
                      ab1\<lparr>ab_memberships := (ab_memberships ab1)(user_id \<mapsto>
                             m(''status'' \<mapsto> PStr ''active'',
                               ''expiration_date'' \<mapsto> PStr new_expiration,
                               ''unblocked_at'' \<mapsto> PStr (strftime now),
                               ''auto_unblocked'' \<mapsto> PBool True))\<rparr>);
               ab3 = save_memberships ab2
           in (True, c1,
               ab3\<lparr>auto_block_log := auto_block_log ab3 @
                     [\<lparr>le_user_id = user_id, le_action = ''auto_unblock'',
                       le_detail = new_expiration, le_timestamp = strftime now\<rparr>]\<rparr>)))"

section \<open>GymforceAPI (gymforce\_api.py)\<close>

text \<open>
  The remote service is the environment: \<open>network\<close> is the script of the results of the
  coming HTTP requests, one per request, whatever the request is. A request ends in a
  response (status code and body) or raises; with the script used up the connection fails.
  The body is a JSON object, another JSON value, or text that \<open>res.json()\<close> rejects.
  \<open>clock\<close> is \<open>time.time()\<close> in seconds.
\<close>

datatype json = JObject membership | JOther | JInvalid

datatype http_result = Response nat json | RaisesTimeout | RaisesOther string

type_synonym network = "http_result list"

record gymforce_api =
  token :: pyval
  token_expiration :: int

definition post :: "network \<Rightarrow> http_result \<times> network" where
  "post net = (case net of [] \<Rightarrow> (RaisesOther ''connection error'', []) | r # rest \<Rightarrow> (r, rest))"

text \<open>\<open>int(v)\<close>: digits with single underscores between them, an optional sign, surrounding
  whitespace.\<close>

definition int_literal :: "string \<Rightarrow> nat option" where
  "int_literal s =
     (if s \<noteq> [] \<and> is_digit (hd s) \<and> is_digit (last s)
         \<and> list_all (\<lambda>c. is_digit c \<or> c = CHR ''_'') s
         \<and> (\<forall>i < length s - 1. \<not> (s ! i = CHR ''_'' \<and> s ! Suc i = CHR ''_''))
      then Some (number_val (filter is_digit s)) else None)"

definition py_int :: "pyval \<Rightarrow> exn + int" where
  "py_int v =
     (case v of
        PInt n \<Rightarrow> Inr n
      | PBool b \<Rightarrow> Inr (if b then 1 else 0)
      | PNone \<Rightarrow> Inl (TypeError ''int() argument must be a string or a number'')
      | PStr s \<Rightarrow>
          (let t = strip s;
               (neg, body) = (case t of
                                c # cs \<Rightarrow> if c = CHR ''-'' then (True, cs)
                                          else if c = CHR ''+'' then (False, cs) else (False, t)
                              | [] \<Rightarrow> (False, t))
           in case int_literal body of
                None \<Rightarrow> Inl (ValueError ''invalid literal for int() with base 10'')
              | Some n \<Rightarrow> Inr (if neg then - int n else int n)))"

definition login :: "gymforce_api \<Rightarrow> int \<Rightarrow> network \<Rightarrow> bool \<times> gymforce_api \<times> network" where
  "login api clock net =
     (case post net of
        (Response status_code body, net1) \<Rightarrow>
          if status_code = 200 then
            (case body of
               JObject data \<Rightarrow>
                 (case data ''token'' of
                    None \<Rightarrow> (False, api, net1)
                  | Some tok \<Rightarrow>
                      (let api1 = api\<lparr>token := tok\<rparr> in
                       case py_int (dict_get data ''expires_in'' (PInt 7200)) of
                         Inl e \<Rightarrow> (False, api1, net1)
                       | Inr n \<Rightarrow> (True, api1\<lparr>token_expiration := clock + n\<rparr>, net1)))
             | _ \<Rightarrow> (False, api, net1))
          else (False, api, net1)
      | (_, net1) \<Rightarrow> (False, api, net1))"

definition ensure_token :: "gymforce_api \<Rightarrow> int \<Rightarrow> network \<Rightarrow> bool \<times> gymforce_api \<times> network" where
  "ensure_token api clock net =
     (let token_valid = (truthy (token api) \<and> clock < token_expiration api) in
      if \<not> token_valid then login api clock net else (True, api, net))"

text \<open>What \<open>validar_acceso\<close> hands back: a dictionary, another JSON value of a 200
  response, or \<open>None\<close> when the function ends without a \<open>return\<close>.\<close>

datatype pyret = RDict membership | ROther | RNone

definition deny :: "string \<Rightarrow> membership" where
  "deny respuesta =
     Map.empty(''status'' \<mapsto> PStr ''ERROR'', ''access'' \<mapsto> PStr ''deny'',
               ''respuesta'' \<mapsto> PStr respuesta)"

function validar_acceso ::
  "gymforce_api \<Rightarrow> int \<Rightarrow> network \<Rightarrow> string \<Rightarrow> int \<Rightarrow> pyret \<times> gymforce_api \<times> network" where
  "validar_acceso api clock net socio_id sucursal_id =
     (case ensure_token api clock net of
        (False, api1, net1) \<Rightarrow> (RDict (deny (''Sin token v'' @ a_acute @ ''lido'')), api1, net1)
      | (True, api1, net1) \<Rightarrow>
          (case post net1 of
             (Response status_code body, net2) \<Rightarrow>
               if status_code = 200 then
                 (case body of
                    JObject data \<Rightarrow> (RDict data, api1, net2)
                  | JOther \<Rightarrow> (ROther, api1, net2)
                  | JInvalid \<Rightarrow> (RDict (deny ''Expecting value''), api1, net2))
               else if status_code = 401 then
                 (case login api1 clock net2 of
                    (True, api2, net3) \<Rightarrow> validar_acceso api2 clock net3 socio_id sucursal_id
                  | (False, api2, net3) \<Rightarrow> (RNone, api2, net3))
               else (RDict (deny (''HTTP '' @ str_nat status_code)), api1, net2)
           | (RaisesTimeout, net2) \<Rightarrow> (RDict (deny ''Timeout''), api1, net2)
           | (RaisesOther msg, net2) \<Rightarrow> (RDict (deny msg), api1, net2)))"
  by pat_completeness auto
termination
proof (relation "measure (\<lambda>(api, clock, net, socio_id, sucursal_id). length net)", goal_cases)
  case 1
  show ?case by simp
next
  case (2 api clock net socio_id sucursal_id ok1 rest1 api1 net1 reply net2 sc body ok2 rest2 api2 net3)
  have login_len: "length (snd (snd (login a clock n))) \<le> length n" for a n
    by (auto simp: login_def post_def Let_def
        split: list.splits http_result.splits json.splits option.splits sum.splits)
  have "ensure_token api clock net = (ok1, api1, net1)"
    using 2(1,3) by simp
  then have "length net1 \<le> length net"
    using login_len [of api net] by (auto simp: ensure_token_def Let_def split: if_splits)
  moreover have "length net2 < length net1"
    using 2(4,5) by (auto simp: post_def split: list.splits)
  moreover have "login api1 clock net2 = (ok2, api2, net3)"
    using 2(8,10) by simp
  then have "length net3 \<le> length net2"
    using login_len [of api1 net2] by simp
  ultimately show ?case by simp
qed

declare validar_acceso.simps [simp del]

section \<open>ZKListenerThread (zk\_listener.py)\<close>

text \<open>
  The listener holds the device session (\<open>None\<close> when there is none), the high-water mark
  \<open>last_processed_time\<close> (\<open>None\<close> before polling starts), its API client and the list
  \<open>attendance_records\<close> of the events it has emitted.
\<close>

record event =
  ev_timestamp :: string
  ev_user_id :: string
  ev_status :: string
  ev_reason :: "pyval option"

record zk_listener =
  l_conn :: "device option"
  last_processed_time :: "datetime option"
  l_api :: gymforce_api
  attendance_records :: "event list"

text \<open>The loop that writes the decision into the first stored event with the same user
  and timestamp, then stops.\<close>

fun update_record :: "string \<Rightarrow> string \<Rightarrow> string \<Rightarrow> pyval \<Rightarrow> event list \<Rightarrow> event list" where
  "update_record socio_id timestamp status reason [] = []"
| "update_record socio_id timestamp status reason (rec # recs) =
     (if ev_user_id rec = socio_id \<and> ev_timestamp rec = timestamp
      then rec\<lparr>ev_status := status, ev_reason := Some reason\<rparr> # recs
      else rec # update_record socio_id timestamp status reason recs)"

definition process_attendance_record ::
  "zk_listener \<Rightarrow> int \<Rightarrow> network \<Rightarrow> attendance \<Rightarrow> zk_listener \<times> network" where
  "process_attendance_record lst clock net record =
     (let socio_id = strip (a_user_id record);
          timestamp = strftime (a_timestamp record);
          record_data = \<lparr>ev_timestamp = timestamp, ev_user_id = socio_id,
                         ev_status = ''processing'', ev_reason = None\<rparr>;
          l1 = lst\<lparr>attendance_records := attendance_records lst @ [record_data]\<rparr>
      in case validar_acceso (l_api l1) clock net socio_id 1 of
           (RDict result, api1, net1) \<Rightarrow>
             (let status = (if result ''access'' = Some (PStr ''allow'') then ''allowed''
                            else ''denied'')
              in (l1\<lparr>l_api := api1,
                     attendance_records :=
                       update_record socio_id timestamp status
                         (dict_get result ''respuesta'' (PStr '''')) (attendance_records l1)\<rparr>,
                  net1))
         | (_, api1, net1) \<Rightarrow> (l1\<lparr>l_api := api1\<rparr>, net1))"

text \<open>The \<open>for\<close> loop of a polling pass over the sorted new records.\<close>

fun process_records ::
  "zk_listener \<Rightarrow> int \<Rightarrow> network \<Rightarrow> attendance list \<Rightarrow> zk_listener \<times> network" where
  "process_records lst clock net [] = (lst, net)"
| "process_records lst clock net (record # rest) =
     (case process_attendance_record lst clock net record of
        (l1, net1) \<Rightarrow>
          process_records (l1\<lparr>last_processed_time := Some (a_timestamp record)\<rparr>) clock net1 rest)"

text \<open>
  \<open>_poll_and_process_records\<close>: the first component is the exception that leaves the
  function, if any. Comparing a timestamp with a mark that is still \<open>None\<close> raises
  \<open>TypeError\<close>.
\<close>

definition poll_and_process_records ::
  "zk_listener \<Rightarrow> int \<Rightarrow> network \<Rightarrow> exn option \<times> zk_listener \<times> network" where
  "poll_and_process_records lst clock net =
     (case l_conn lst of
        None \<Rightarrow> (None, lst, net)
      | Some d \<Rightarrow>
          (case get_attendance d of
             (Inl e, d1) \<Rightarrow> (Some e, lst\<lparr>l_conn := Some d1\<rparr>, net)
           | (Inr records, d1) \<Rightarrow>
               (let l1 = lst\<lparr>l_conn := Some d1\<rparr> in
                if records = [] then (None, l1, net)
                else
                  (case last_processed_time l1 of
                     None \<Rightarrow> (Some (TypeError ''> not supported between datetime and NoneType''), l1, net)
                   | Some mark \<Rightarrow>
                       (let new_records = filter (\<lambda>r. a_timestamp r > mark) records in
                        case process_records l1 clock net (sort_key a_timestamp new_records) of
                          (l2, net2) \<Rightarrow> (None, l2, net2))))))"

definition initialize_polling_timestamp ::
  "zk_listener \<Rightarrow> datetime \<Rightarrow> exn option \<times> zk_listener" where
  "initialize_polling_timestamp lst now =
     (case last_processed_time lst of
        Some _ \<Rightarrow> (None, lst)
      | None \<Rightarrow>
          (case l_conn lst of
             None \<Rightarrow> (None, lst\<lparr>last_processed_time := Some now\<rparr>)
           | Some d \<Rightarrow>
               (case get_attendance d of
                  (Inl e, d1) \<Rightarrow> (Some e, lst\<lparr>l_conn := Some d1\<rparr>)
                | (Inr records, d1) \<Rightarrow>
                    (case map a_timestamp records of
                       [] \<Rightarrow> (None, lst\<lparr>l_conn := Some d1, last_processed_time := Some now\<rparr>)
                     | t # ts \<Rightarrow>
                         (None, lst\<lparr>l_conn := Some d1,
                                    last_processed_time := Some (fold max ts t)\<rparr>)))))"

section \<open>Notions used to state the properties\<close>

text \<open>The device user that \<open>next(u for u in users if str(u.user_id) == str(user_id))\<close> finds,
  the templates stored under a user's device identity, and the snapshot a backup of that
  user captures.\<close>

definition device_user :: "device \<Rightarrow> string \<Rightarrow> zk_user option" where
  "device_user conn user_id = find (\<lambda>u. u_user_id u = user_id) (dev_users conn)"

definition templates_of :: "device \<Rightarrow> zk_user \<Rightarrow> finger list" where
  "templates_of conn user = filter (\<lambda>t. f_uid t = u_uid user) (dev_templates conn)"

definition snapshot_of :: "device \<Rightarrow> zk_user \<Rightarrow> snapshot" where
  "snapshot_of conn user =
     \<lparr>b_user = user_entry user, b_templates = map template_entry (templates_of conn user)\<rparr>"

text \<open>None of the next \<open>n\<close> device calls raises.\<close>

definition no_fault :: "nat \<Rightarrow> device \<Rightarrow> bool" where
  "no_fault n conn = (True \<notin> set (take n (dev_faults conn)))"

definition every_snapshot_has_template :: "template_manager \<Rightarrow> bool" where
  "every_snapshot_has_template tm =
     (\<forall>user_id s. templates_db tm user_id = Some s \<longrightarrow> b_templates s \<noteq> [])"

text \<open>A device with one enrolled user and one template, and an empty vault.\<close>

definition demo_user :: zk_user where
  "demo_user = \<lparr>u_uid = 1, u_name = ''Ana'', u_privilege = 0, u_password = [],
                 u_group_id = [], u_user_id = ''1001'', u_card = 0\<rparr>"

definition demo_finger :: finger where
  "demo_finger = \<lparr>f_uid = 1, f_fid = 0, f_valid = 1, f_template = [0x4A, 0xF0, 0x07],
                   f_mark = []\<rparr>"

definition demo_device :: device where
  "demo_device = \<lparr>dev_users = [demo_user], dev_templates = [demo_finger],
                   dev_attendance = [], dev_faults = [], dev_log = []\<rparr>"

definition empty_tm :: template_manager where
  "empty_tm = \<lparr>templates_db = Map.empty, templates_file = Map.empty\<rparr>"

text \<open>A vault that holds an older snapshot of user 1001, taken with another payload.\<close>

definition stale_snapshot :: snapshot where
  "stale_snapshot =
     \<lparr>b_user = user_entry demo_user,
      b_templates = [\<lparr>td_uid = 1, td_fid = 0, td_valid = 1, td_template = ''0B0c'',
                      td_mark = []\<rparr>]\<rparr>"

definition stale_tm :: template_manager where
  "stale_tm = \<lparr>templates_db = Map.empty(''1001'' \<mapsto> stale_snapshot),
               templates_file = Map.empty(''1001'' \<mapsto> stale_snapshot)\<rparr>"

definition empty_ab :: auto_block_manager where
  "empty_ab = \<lparr>ab_memberships = Map.empty, ab_memberships_file = Map.empty,
               ab_template_manager = empty_tm, auto_block_log = []\<rparr>"

text \<open>
  The payload bytes of a snapshot, read from the stored document: \<open>bytes.fromhex\<close> of
  each template's text, in order. The payload bytes the device holds under a device
  identity. Two snapshots hold an equivalent template set when they have the same number
  of templates and the same payload bytes; device identities are not compared.
\<close>

definition stored_payloads :: "snapshot \<Rightarrow> (exn + byte list) list" where
  "stored_payloads s = map (\<lambda>t. bytes_fromhex (td_template t)) (b_templates s)"

definition device_payloads :: "device \<Rightarrow> int \<Rightarrow> byte list list" where
  "device_payloads conn uid = map f_template (filter (\<lambda>t. f_uid t = uid) (dev_templates conn))"

definition equivalent_templates :: "snapshot \<Rightarrow> snapshot \<Rightarrow> bool" where
  "equivalent_templates old new =
     (length (b_templates new) = length (b_templates old)
      \<and> stored_payloads new = stored_payloads old)"

text \<open>
  A device on which user 1001 was enrolled again after the snapshot was taken: the device
  identity is now 7, with a new template.
\<close>

definition reenrolled_device :: device where
  "reenrolled_device =
     \<lparr>dev_users = [demo_user\<lparr>u_uid := 7\<rparr>], dev_templates = [demo_finger\<lparr>f_uid := 7\<rparr>],
      dev_attendance = [], dev_faults = [], dev_log = []\<rparr>"

definition reenrolled_restore :: "bool \<times> device \<times> template_manager" where
  "reenrolled_restore = restore_user_templates stale_tm reenrolled_device ''1001''"

definition reenrolled_backup :: "bool \<times> device \<times> template_manager" where
  "reenrolled_backup =
     backup_user_templates (snd (snd reenrolled_restore)) (fst (snd reenrolled_restore)) ''1001''"

text \<open>The \<open>User\<close> object that \<open>restore_user_templates\<close> rebuilds from a snapshot.\<close>

definition restored_user :: "user_data \<Rightarrow> zk_user" where
  "restored_user user_data =
     \<lparr>u_uid = ud_uid user_data, u_name = ud_name user_data,
      u_privilege = ud_privilege user_data, u_password = ud_password user_data,
      u_group_id = ud_group_id user_data, u_user_id = ud_user_id user_data,
      u_card = (case ud_card user_data of None \<Rightarrow> 0 | Some c \<Rightarrow> c)\<rparr>"

text \<open>A registry with one active member, for the examples.\<close>

definition demo_member :: "string \<Rightarrow> membership" where
  "demo_member expiration =
     Map.empty(''user_id'' \<mapsto> PStr ''1001'', ''name'' \<mapsto> PStr ''Ana'',
               ''expiration_date'' \<mapsto> PStr expiration, ''status'' \<mapsto> PStr ''active'',
               ''last_visit'' \<mapsto> PNone, ''visit_count'' \<mapsto> PInt 4)"

definition demo_mm :: "string \<Rightarrow> membership_manager" where
  "demo_mm expiration =
     \<lparr>mm_users = Map.empty(''1001'' \<mapsto> demo_member expiration),
      mm_data_file = Map.empty, mm_template_manager = empty_tm\<rparr>"

text \<open>
  The decision of \<open>shouldBlock\<close> as the specification words it, first match first: not
  registered, false; status blocked, true; status inactive, true; no expiration date, true;
  expiration date in the past, true; otherwise false. The expiration date is a calendar
  date, so it is in the past when it is before today's date. A stored expiration date that
  is not a calendar date is outside the specification's data model: the specification says
  nothing about it (\<open>None\<close>).
\<close>

definition spec_should_block :: "registry \<Rightarrow> datetime \<Rightarrow> string \<Rightarrow> bool option" where
  "spec_should_block memberships now user_id =
     (case memberships user_id of
        None \<Rightarrow> Some False
      | Some m \<Rightarrow>
          if m ''status'' = Some (PStr ''blocked'') then Some True
          else if m ''status'' = Some (PStr ''inactive'') then Some True
          else if \<not> truthy (dict_get m ''expiration_date'' PNone) then Some True
          else (case strptime (dict_get m ''expiration_date'' PNone) of
                  Inr exp_date \<Rightarrow> Some (dt_date exp_date < dt_date now)
                | Inl e \<Rightarrow> None))"

definition demo_ab :: "string \<Rightarrow> auto_block_manager" where
  "demo_ab expiration = empty_ab\<lparr>ab_memberships := Map.empty(''1001'' \<mapsto> demo_member expiration)\<rparr>"

text \<open>
  What a polling pass processes is read off the events the listener stores: every call of
  \<open>process_attendance_record\<close> appends one event, identified by the stripped user id and
  the formatted timestamp of the record.
\<close>

definition event_keys :: "zk_listener \<Rightarrow> (string \<times> string) list" where
  "event_keys lst = map (\<lambda>e. (ev_user_id e, ev_timestamp e)) (attendance_records lst)"

definition record_key :: "attendance \<Rightarrow> string \<times> string" where
  "record_key r = (strip (a_user_id r), strftime (a_timestamp r))"

definition new_records :: "datetime \<Rightarrow> attendance list \<Rightarrow> attendance list" where
  "new_records mark records = filter (\<lambda>r. a_timestamp r > mark) records"

text \<open>A listener on a device with three attendance records, out of order.\<close>

definition demo_attendance :: "attendance list" where
  "demo_attendance =
     [\<lparr>a_user_id = ''1001'', a_timestamp = (2025, 3, 10, 9, 0, 0, 0)\<rparr>,
      \<lparr>a_user_id = ''1002'', a_timestamp = (2025, 3, 10, 9, 30, 0, 0)\<rparr>,
      \<lparr>a_user_id = ''1003'', a_timestamp = (2025, 3, 10, 9, 15, 0, 0)\<rparr>]"

definition demo_listener :: "datetime option \<Rightarrow> zk_listener" where
  "demo_listener mark =
     \<lparr>l_conn = Some (demo_device\<lparr>dev_attendance := demo_attendance\<rparr>),
      last_processed_time = mark,
      l_api = \<lparr>token = PNone, token_expiration = 0\<rparr>,
      attendance_records = []\<rparr>"

section \<open>The managers as one system\<close>

text \<open>
  The state of a running installation: the membership manager with its registry and
  vault, the automatic-block manager with its registry and vault, the device both talk
  to, and the two persisted documents both managers read and write: \<open>memberships.json\<close>
  and \<open>user_templates.json\<close>. A document that does not exist reads as the empty
  dictionary.
\<close>

record system =
  sys_mm :: membership_manager
  sys_ab :: auto_block_manager
  sys_conn :: device
  memberships_json :: registry
  templates_json :: "string \<rightharpoonup> snapshot"

text \<open>The constructors: each manager loads its dictionaries from the documents.\<close>

definition new_template_manager :: "(string \<rightharpoonup> snapshot) \<Rightarrow> template_manager" where
  "new_template_manager templates_doc =
     \<lparr>templates_db = templates_doc, templates_file = templates_doc\<rparr>"

definition new_membership_manager ::
  "registry \<Rightarrow> (string \<rightharpoonup> snapshot) \<Rightarrow> membership_manager" where
  "new_membership_manager memberships_doc templates_doc =
     \<lparr>mm_users = memberships_doc, mm_data_file = memberships_doc,
      mm_template_manager = new_template_manager templates_doc\<rparr>"

definition new_auto_block_manager ::
  "registry \<Rightarrow> (string \<rightharpoonup> snapshot) \<Rightarrow> auto_block_manager" where
  "new_auto_block_manager memberships_doc templates_doc =
     \<lparr>ab_memberships = memberships_doc, ab_memberships_file = memberships_doc,
      ab_template_manager = new_template_manager templates_doc, auto_block_log = []\<rparr>"

text \<open>
  A manager called in state \<open>s\<close> finds the documents as they are now, and what it leaves
  in its file fields is what the documents hold afterwards: a call that saves overwrites
  the document with the manager's dictionary, a call that does not save leaves it.
\<close>

definition mm_view :: "system \<Rightarrow> membership_manager" where
  "mm_view s =
     (sys_mm s)\<lparr>mm_data_file := memberships_json s,
                 mm_template_manager :=
                   (mm_template_manager (sys_mm s))\<lparr>templates_file := templates_json s\<rparr>\<rparr>"

definition put_mm :: "system \<Rightarrow> device \<Rightarrow> membership_manager \<Rightarrow> system" where
  "put_mm s conn mm =
     s\<lparr>sys_mm := mm, sys_conn := conn, memberships_json := mm_data_file mm,
       templates_json := templates_file (mm_template_manager mm)\<rparr>"

definition ab_view :: "system \<Rightarrow> auto_block_manager" where
  "ab_view s =
     (sys_ab s)\<lparr>ab_memberships_file := memberships_json s,
                 ab_template_manager :=
                   (ab_template_manager (sys_ab s))\<lparr>templates_file := templates_json s\<rparr>\<rparr>"

definition put_ab :: "system \<Rightarrow> device \<Rightarrow> auto_block_manager \<Rightarrow> system" where
  "put_ab s conn ab =
     s\<lparr>sys_ab := ab, sys_conn := conn, memberships_json := ab_memberships_file ab,
       templates_json := templates_file (ab_template_manager ab)\<rparr>"

text \<open>
  An operation is one call of a public method. \<open>StartOrchestrator\<close> constructs the
  automatic-block manager anew from the documents; \<open>DeviceChange\<close> stands for whatever
  happens to the device between calls (enrolment at the device, a restart).
\<close>

datatype operation =
    AddUser string string string string "(string \<times> pyval) list"
  | Validate string
  | BlockWithBackup string
  | UnblockWithRestore string "string option"
  | UpdateExpiration string string
  | Deactivate string
  | Reactivate string "string option"
  | StartOrchestrator
  | AutoBlock string string
  | AutoUnblock string string
  | DeleteBackupMM string
  | DeleteBackupAB string
  | DeviceChange device

fun apply_op :: "datetime \<Rightarrow> operation \<Rightarrow> system \<Rightarrow> system" where
  "apply_op now (AddUser user_id name expiration status kwargs) s =
     put_mm s (sys_conn s) (add_user (mm_view s) now user_id name expiration status kwargs)"
| "apply_op now (Validate user_id) s =
     put_mm s (sys_conn s) (snd (validate_membership (mm_view s) now user_id))"
| "apply_op now (BlockWithBackup user_id) s =
     (case block_user_with_backup (mm_view s) now (sys_conn s) user_id of
        (ok, conn', mm') \<Rightarrow> put_mm s conn' mm')"
| "apply_op now (UnblockWithRestore user_id new_expiration) s =
     (case unblock_user_with_restore (mm_view s) now (sys_conn s) user_id new_expiration of
        (ok, conn', mm') \<Rightarrow> put_mm s conn' mm')"
| "apply_op now (UpdateExpiration user_id new_expiration) s =
     put_mm s (sys_conn s) (snd (update_expiration (mm_view s) now user_id new_expiration))"
| "apply_op now (Deactivate user_id) s =
     put_mm s (sys_conn s) (deactivate_user (mm_view s) now user_id)"
| "apply_op now (Reactivate user_id new_expiration) s =
     put_mm s (sys_conn s) (reactivate_user (mm_view s) now user_id new_expiration)"
| "apply_op now StartOrchestrator s =
     s\<lparr>sys_ab := new_auto_block_manager (memberships_json s) (templates_json s)\<rparr>"
| "apply_op now (AutoBlock user_id reason) s =
     (case block_user_automatically (ab_view s) now (sys_conn s) user_id reason of
        (ok, conn', ab') \<Rightarrow> put_ab s conn' ab')"
| "apply_op now (AutoUnblock user_id new_expiration) s =
     (case unblock_user_automatically (ab_view s) now (sys_conn s) user_id new_expiration of
        (ok, conn', ab') \<Rightarrow> put_ab s conn' ab')"
| "apply_op now (DeleteBackupMM user_id) s =
     put_mm s (sys_conn s)
       ((mm_view s)\<lparr>mm_template_manager :=
                       snd (delete_backup (mm_template_manager (mm_view s)) user_id)\<rparr>)"
| "apply_op now (DeleteBackupAB user_id) s =
     put_ab s (sys_conn s)
       ((ab_view s)\<lparr>ab_template_manager :=
                       snd (delete_backup (ab_template_manager (ab_view s)) user_id)\<rparr>)"
| "apply_op now (DeviceChange d) s = s\<lparr>sys_conn := d\<rparr>"

text \<open>A run is a list of operations, each with the time at which it is called.\<close>

fun run_ops :: "system \<Rightarrow> (datetime \<times> operation) list \<Rightarrow> system" where
  "run_ops s [] = s"
| "run_ops s ((now, op) # ops) = run_ops (apply_op now op s) ops"

text \<open>
  The start: no membership document yet, so both registries are empty; the template
  document and the device are arbitrary.
\<close>

definition initial_system :: "(string \<rightharpoonup> snapshot) \<Rightarrow> device \<Rightarrow> system" where
  "initial_system templates_doc conn =
     \<lparr>sys_mm = new_membership_manager Map.empty templates_doc,
      sys_ab = new_auto_block_manager Map.empty templates_doc,
      sys_conn = conn, memberships_json = Map.empty, templates_json = templates_doc\<rparr>"

definition is_blocked :: "registry \<Rightarrow> string \<Rightarrow> bool" where
  "is_blocked reg user_id =
     (case reg user_id of None \<Rightarrow> False | Some m \<Rightarrow> m ''status'' = Some (PStr ''blocked''))"

text \<open>The invariant: in each manager, a record with status \<open>blocked\<close> has a snapshot in
  that manager's vault.\<close>

definition blocked_have_snapshot :: "system \<Rightarrow> bool" where
  "blocked_have_snapshot s =
     ((\<forall>user_id. is_blocked (mm_users (sys_mm s)) user_id
                  \<longrightarrow> has_backup (mm_template_manager (sys_mm s)) user_id)
      \<and> (\<forall>user_id. is_blocked (ab_memberships (sys_ab s)) user_id
                  \<longrightarrow> has_backup (ab_template_manager (sys_ab s)) user_id))"

text \<open>The documents agree: every record that the membership document has as blocked has
  a snapshot in the template document.\<close>

definition documents_consistent :: "system \<Rightarrow> bool" where
  "documents_consistent s =
     (\<forall>user_id. is_blocked (memberships_json s) user_id \<longrightarrow> user_id \<in> dom (templates_json s))"

text \<open>
  The operations that keep the invariant: \<open>add_user\<close> with a status other than \<open>blocked\<close>,
  \<open>delete_backup\<close> for a user id whose record is not blocked, a start of the orchestrator
  when the documents agree, and every other operation.
\<close>

fun safe_op :: "system \<Rightarrow> operation \<Rightarrow> bool" where
  "safe_op s (AddUser user_id name expiration status kwargs) = (status \<noteq> ''blocked'')"
| "safe_op s (DeleteBackupMM user_id) = (\<not> is_blocked (mm_users (sys_mm s)) user_id)"
| "safe_op s (DeleteBackupAB user_id) = (\<not> is_blocked (ab_memberships (sys_ab s)) user_id)"
| "safe_op s StartOrchestrator = documents_consistent s"
| "safe_op s _ = True"

fun safe_run :: "system \<Rightarrow> (datetime \<times> operation) list \<Rightarrow> bool" where
  "safe_run s [] = True"
| "safe_run s ((now, op) # ops) = (safe_op s op \<and> safe_run (apply_op now op s) ops)"

text \<open>The invariant for one manager; a membership manager whose documents agree with its
  dictionaries as far as blocked records and snapshots go; and what holds of the system
  while only the membership manager has run.\<close>

definition mm_inv :: "membership_manager \<Rightarrow> bool" where
  "mm_inv mm = (\<forall>u. is_blocked (mm_users mm) u \<longrightarrow> has_backup (mm_template_manager mm) u)"

definition ab_inv :: "auto_block_manager \<Rightarrow> bool" where
  "ab_inv ab = (\<forall>u. is_blocked (ab_memberships ab) u \<longrightarrow> has_backup (ab_template_manager ab) u)"

definition mm_synced :: "membership_manager \<Rightarrow> bool" where
  "mm_synced mm =
     ((\<forall>u. is_blocked (mm_data_file mm) u = is_blocked (mm_users mm) u)
      \<and> templates_file (mm_template_manager mm) = templates_db (mm_template_manager mm))"

definition mm_only_inv :: "system \<Rightarrow> bool" where
  "mm_only_inv s =
     (mm_inv (sys_mm s)
      \<and> (\<forall>u. is_blocked (memberships_json s) u = is_blocked (mm_users (sys_mm s)) u)
      \<and> templates_json s = templates_db (mm_template_manager (sys_mm s)))"

text \<open>The operations of the membership manager (and changes of the device).\<close>

fun mm_op :: "operation \<Rightarrow> bool" where
  "mm_op StartOrchestrator = False"
| "mm_op (AutoBlock user_id reason) = False"
| "mm_op (AutoUnblock user_id new_expiration) = False"
| "mm_op (DeleteBackupAB user_id) = False"
| "mm_op _ = True"

text \<open>A device with two enrolled users, each with one template.\<close>

definition two_user_device :: device where
  "two_user_device =
     \<lparr>dev_users = [demo_user, demo_user\<lparr>u_uid := 2, u_name := ''Luis'', u_user_id := ''1002''\<rparr>],
      dev_templates = [demo_finger, demo_finger\<lparr>f_uid := 2\<rparr>],
      dev_attendance = [], dev_faults = [], dev_log = []\<rparr>"

text \<open>A client that holds a token the local clock still takes as valid.\<close>

definition demo_api :: gymforce_api where
  "demo_api = \<lparr>token = PStr ''tok'', token_expiration = 100\<rparr>"

definition login_ok :: http_result where
  "login_ok = Response 200 (JObject (Map.empty(''token'' \<mapsto> PStr ''tok2'')))"

definition access_allow :: http_result where
  "access_allow = Response 200 (JObject (Map.empty(''status'' \<mapsto> PStr ''OK'',
                                                    ''access'' \<mapsto> PStr ''allow'')))"

section \<open>Verification\<close>

subsection \<open>The device calls\<close>

lemma issue_data:
  "issue c d = (f, d') \<Longrightarrow>
     dev_users d' = dev_users d \<and> dev_templates d' = dev_templates d
     \<and> dev_attendance d' = dev_attendance d \<and> dev_log d' = dev_log d @ [c]
     \<and> dev_faults d' = tl (dev_faults d) \<and> (f \<longleftrightarrow> (dev_faults d \<noteq> [] \<and> hd (dev_faults d)))"
  by (auto simp: issue_def split: list.splits)

lemma get_users_data:
  "get_users d = (r, d') \<Longrightarrow>
     dev_users d' = dev_users d \<and> dev_templates d' = dev_templates d
     \<and> dev_attendance d' = dev_attendance d \<and> dev_log d' = dev_log d @ [GetUsers]
     \<and> dev_faults d' = tl (dev_faults d)
     \<and> (r = Inr (dev_users d) \<or> r = Inl DeviceError)
     \<and> (r = Inl DeviceError \<longleftrightarrow> (dev_faults d \<noteq> [] \<and> hd (dev_faults d)))"
  unfolding get_users_def
  by (cases "issue GetUsers d") (auto dest!: issue_data split: bool.splits)

lemma get_templates_data:
  "get_templates d = (r, d') \<Longrightarrow>
     dev_users d' = dev_users d \<and> dev_templates d' = dev_templates d
     \<and> dev_attendance d' = dev_attendance d \<and> dev_log d' = dev_log d @ [GetTemplates]
     \<and> dev_faults d' = tl (dev_faults d)
     \<and> (r = Inr (dev_templates d) \<or> r = Inl DeviceError)
     \<and> (r = Inl DeviceError \<longleftrightarrow> (dev_faults d \<noteq> [] \<and> hd (dev_faults d)))"
  unfolding get_templates_def
  by (cases "issue GetTemplates d") (auto dest!: issue_data split: bool.splits)

lemma delete_user_data:
  "delete_user d uid = (r, d') \<Longrightarrow>
     dev_attendance d' = dev_attendance d \<and> dev_log d' = dev_log d @ [DeleteUser uid]
     \<and> dev_faults d' = tl (dev_faults d)
     \<and> (case r of
          Inl e \<Rightarrow> dev_users d' = dev_users d \<and> dev_templates d' = dev_templates d
        | Inr _ \<Rightarrow> dev_users d' = filter (\<lambda>u. u_uid u \<noteq> uid) (dev_users d)
                   \<and> dev_templates d' = filter (\<lambda>t. f_uid t \<noteq> uid) (dev_templates d))"
  unfolding delete_user_def
  by (cases "issue (DeleteUser uid) d") (auto dest!: issue_data split: bool.splits)

lemma backup_cases:
  assumes "backup_user_templates tm conn user_id = (ok, conn', tm')"
  shows "dev_users conn' = dev_users conn \<and> dev_templates conn' = dev_templates conn
         \<and> dev_attendance conn' = dev_attendance conn
         \<and> (dev_log conn' = dev_log conn @ [GetUsers]
            \<or> dev_log conn' = dev_log conn @ [GetUsers, GetTemplates])
         \<and> (if ok
            then dev_log conn' = dev_log conn @ [GetUsers, GetTemplates]
                 \<and> (\<exists>user. device_user conn user_id = Some user \<and> templates_of conn user \<noteq> []
                    \<and> tm' = save_templates (tm\<lparr>templates_db := (templates_db tm)(user_id \<mapsto> snapshot_of conn user)\<rparr>))
            else tm' = tm)"
proof -
  obtain r1 c1 where g1: "get_users conn = (r1, c1)" by (cases "get_users conn")
  obtain r2 c2 where g2: "get_templates c1 = (r2, c2)" by (cases "get_templates c1")
  note d1 = get_users_data [OF g1] and d2 = get_templates_data [OF g2]
  show ?thesis
    using assms d1 d2 unfolding backup_user_templates_def g1
    by (auto simp: g2 device_user_def templates_of_def snapshot_of_def Let_def
             split: sum.splits option.splits if_splits)
qed

lemma backup_no_fault:
  assumes "backup_user_templates tm conn user_id = (ok, conn', tm')"
    and "no_fault 2 conn"
    and "device_user conn user_id = Some user" and "templates_of conn user \<noteq> []"
  shows ok
proof -
  obtain r1 c1 where g1: "get_users conn = (r1, c1)" by (cases "get_users conn")
  obtain r2 c2 where g2: "get_templates c1 = (r2, c2)" by (cases "get_templates c1")
  note d1 = get_users_data [OF g1] and d2 = get_templates_data [OF g2]
  have f1: "\<not> (dev_faults conn \<noteq> [] \<and> hd (dev_faults conn))"
    using assms(2) by (cases "dev_faults conn") (auto simp: no_fault_def)
  have f2: "\<not> (dev_faults c1 \<noteq> [] \<and> hd (dev_faults c1))"
    using assms(2) d1 by (cases "dev_faults conn"; cases "tl (dev_faults conn)") (auto simp: no_fault_def)
  show ?thesis
    using assms(1,3,4) d1 d2 f1 f2 unfolding backup_user_templates_def g1
    by (auto simp: g2 device_user_def templates_of_def Let_def
             split: sum.splits option.splits if_splits)
qed

subsection \<open>TemplateManager.backup\_user\_templates\<close>

text \<open>
  Claim C9. A backup that returns \<open>True\<close> found the user on the device with at least one
  template and wrote exactly that snapshot under the user id, in memory and in the file,
  replacing whatever was stored there; a backup that returns \<open>False\<close> leaves the vault as
  it was. So a user who is absent or has no template gets no write. When the two device
  reads do not raise, the backup succeeds exactly when the user is present with at least
  one template. A vault whose snapshots all hold a template keeps this property.
\<close>

theorem backup_writes_iff_user_has_templates:
  assumes "backup_user_templates tm conn user_id = (ok, conn', tm')"
  shows "(ok \<longrightarrow> (\<exists>user. device_user conn user_id = Some user
                   \<and> templates_of conn user \<noteq> []
                   \<and> templates_db tm' = (templates_db tm)(user_id \<mapsto> snapshot_of conn user)
                   \<and> templates_file tm' = templates_db tm'
                   \<and> b_templates (snapshot_of conn user) \<noteq> []))
       \<and> (\<not> ok \<longrightarrow> tm' = tm)
       \<and> (no_fault 2 conn \<longrightarrow>
            (ok \<longleftrightarrow> (\<exists>user. device_user conn user_id = Some user \<and> templates_of conn user \<noteq> [])))
       \<and> (every_snapshot_has_template tm \<longrightarrow> every_snapshot_has_template tm')"
proof -
  note c = backup_cases [OF assms]
  have 1: "ok \<longrightarrow> (\<exists>user. device_user conn user_id = Some user
                   \<and> templates_of conn user \<noteq> []
                   \<and> templates_db tm' = (templates_db tm)(user_id \<mapsto> snapshot_of conn user)
                   \<and> templates_file tm' = templates_db tm'
                   \<and> b_templates (snapshot_of conn user) \<noteq> [])"
    using c by (auto simp: save_templates_def snapshot_of_def)
  have 2: "\<not> ok \<longrightarrow> tm' = tm" using c by auto
  have 3: "no_fault 2 conn \<longrightarrow>
            (ok \<longleftrightarrow> (\<exists>user. device_user conn user_id = Some user \<and> templates_of conn user \<noteq> []))"
    using 1 backup_no_fault [OF assms] by blast
  have 4: "every_snapshot_has_template tm \<longrightarrow> every_snapshot_has_template tm'"
  proof (cases ok)
    case True
    then show ?thesis using 1 by (auto simp: every_snapshot_has_template_def split: if_splits)
  next
    case False
    then show ?thesis using 2 by simp
  qed
  show ?thesis using 1 2 3 4 by blast
qed

lemma demo_device_user: "device_user demo_device ''1001'' = Some demo_user"
  by (simp add: device_user_def demo_device_def demo_user_def)

lemma demo_templates: "templates_of demo_device demo_user = [demo_finger]"
  by (simp add: templates_of_def demo_device_def demo_user_def demo_finger_def)

theorem backup_writes_iff_user_has_templates_witness:
  "no_fault 2 demo_device \<and> every_snapshot_has_template empty_tm
   \<and> fst (backup_user_templates empty_tm demo_device ''1001'')
   \<and> templates_db (snd (snd (backup_user_templates empty_tm demo_device ''1001''))) ''1001''
       = Some (snapshot_of demo_device demo_user)
   \<and> every_snapshot_has_template (snd (snd (backup_user_templates empty_tm demo_device ''1001'')))"
proof -
  obtain ok c t where r: "backup_user_templates empty_tm demo_device ''1001'' = (ok, c, t)"
    by (cases "backup_user_templates empty_tm demo_device ''1001''")
  have nf: "no_fault 2 demo_device" by (simp add: no_fault_def demo_device_def)
  have es: "every_snapshot_has_template empty_tm"
    by (simp add: every_snapshot_has_template_def empty_tm_def)
  have ex: "\<exists>user. device_user demo_device ''1001'' = Some user \<and> templates_of demo_device user \<noteq> []"
    by (simp add: demo_device_user demo_templates)
  from backup_writes_iff_user_has_templates [OF r] nf es ex
  have "ok" and "every_snapshot_has_template t"
    and "\<exists>user. device_user demo_device ''1001'' = Some user
           \<and> templates_db t = (templates_db empty_tm)(''1001'' \<mapsto> snapshot_of demo_device user)"
    by blast+
  then show ?thesis using nf es r by (auto simp: demo_device_user)
qed

subsection \<open>TemplateManager.block\_user\<close>

text \<open>
  Claim C1. \<open>block_user\<close> runs the backup first. \<open>calls\<close> are the device calls the block
  issues. When the backup fails, the block fails, no delete is among the calls, and the
  device's users, templates and attendance records and the vault are as before. A delete is issued only after a
  successful backup: it is the last call, after the reads of the backup, and the vault holds
  a snapshot for the user id at that moment. A block that returns \<open>True\<close> therefore leaves
  the snapshot of the deleted user in the vault.
\<close>

theorem block_user_backup_before_delete:
  assumes b: "block_user tm conn user_id = (ok, conn', tm')"
    and bk: "backup_user_templates tm conn user_id = (bok, c1, tm1)"
  shows "\<exists>calls. dev_log conn' = dev_log conn @ calls
           \<and> (\<not> bok \<longrightarrow> \<not> ok \<and> tm' = tm
                        \<and> dev_users conn' = dev_users conn
                        \<and> dev_templates conn' = dev_templates conn
                        \<and> dev_attendance conn' = dev_attendance conn
                        \<and> (\<forall>uid. DeleteUser uid \<notin> set calls))
           \<and> (\<forall>uid. DeleteUser uid \<in> set calls \<longrightarrow>
                  bok \<and> calls = [GetUsers, GetTemplates, GetUsers, DeleteUser uid]
                  \<and> has_backup tm1 user_id \<and> tm' = tm1)
           \<and> (ok \<longrightarrow> bok \<and> has_backup tm' user_id
                  \<and> (\<exists>user. device_user conn user_id = Some user
                        \<and> templates_db tm' user_id = Some (snapshot_of conn user)
                        \<and> DeleteUser (u_uid user) \<in> set calls
                        \<and> dev_users conn' = filter (\<lambda>u. u_uid u \<noteq> u_uid user) (dev_users conn)
                        \<and> dev_templates conn'
                            = filter (\<lambda>t. f_uid t \<noteq> u_uid user) (dev_templates conn)))"
proof (cases bok)
  case False
  with b bk have "ok = False" "conn' = c1" "tm' = tm1"
    by (auto simp: block_user_def)
  moreover from backup_cases [OF bk] False
  have "tm1 = tm" "dev_users c1 = dev_users conn" "dev_templates c1 = dev_templates conn"
    "dev_attendance c1 = dev_attendance conn"
    "dev_log c1 = dev_log conn @ [GetUsers] \<or> dev_log c1 = dev_log conn @ [GetUsers, GetTemplates]"
    by auto
  ultimately show ?thesis using False by auto
next
  case True
  from backup_cases [OF bk] True obtain user where
    c1: "dev_users c1 = dev_users conn" "dev_templates c1 = dev_templates conn"
        "dev_log c1 = dev_log conn @ [GetUsers, GetTemplates]"
    and u: "device_user conn user_id = Some user"
    and tm1: "tm1 = save_templates (tm\<lparr>templates_db := (templates_db tm)(user_id \<mapsto> snapshot_of conn user)\<rparr>)"
    by auto
  have hb: "has_backup tm1 user_id" "templates_db tm1 user_id = Some (snapshot_of conn user)"
    by (simp_all add: tm1 has_backup_def save_templates_def)
  obtain r2 c2 where g: "get_users c1 = (r2, c2)" by (cases "get_users c1")
  note d2 = get_users_data [OF g]
  obtain r3 c3 where dl: "delete_user c2 (u_uid user) = (r3, c3)"
    by (cases "delete_user c2 (u_uid user)")
  note d3 = delete_user_data [OF dl]
  have tm': "tm' = tm1" using b bk True
    by (auto simp: block_user_def split: prod.splits sum.splits option.splits)
  show ?thesis
  proof (cases r2)
    case (Inl e)
    with b bk True g have "ok = False" "conn' = c2"
      by (auto simp: block_user_def)
    then show ?thesis using True d2 c1 by auto
  next
    case (Inr users)
    then have users: "users = dev_users conn" using d2 c1 by auto
    have f: "find (\<lambda>u. u_user_id u = user_id) users = Some user"
      using u users by (simp add: device_user_def)
    show ?thesis
    proof (cases r3)
      case (Inl e)
      with b bk True g Inr f dl have "ok = False" "conn' = c3"
        by (auto simp: block_user_def)
      then show ?thesis using True d2 d3 c1 Inl hb tm' by auto
    next
      case (Inr x)
      with b bk True g \<open>r2 = Inr users\<close> f dl have "ok = True" "conn' = c3"
        by (auto simp: block_user_def)
      then show ?thesis using True d2 d3 c1 Inr hb tm' u by auto
    qed
  qed
qed

theorem block_user_backup_before_delete_witness:
  "fst (block_user empty_tm demo_device ''1001'')
   \<and> fst (backup_user_templates empty_tm demo_device ''1001'')
   \<and> has_backup (snd (snd (block_user empty_tm demo_device ''1001''))) ''1001''
   \<and> dev_users (fst (snd (block_user empty_tm demo_device ''1001''))) = []
   \<and> dev_log (fst (snd (block_user empty_tm demo_device ''1001'')))
       = [GetUsers, GetTemplates, GetUsers, DeleteUser 1]"
proof -
  obtain ok c t where r: "block_user empty_tm demo_device ''1001'' = (ok, c, t)"
    by (cases "block_user empty_tm demo_device ''1001''")
  obtain bok c1 t1 where k: "backup_user_templates empty_tm demo_device ''1001'' = (bok, c1, t1)"
    by (cases "backup_user_templates empty_tm demo_device ''1001''")
  have ok: "fst (block_user empty_tm demo_device ''1001'')"
    by (simp add: block_user_def backup_user_templates_def get_users_def get_templates_def
        delete_user_def issue_def empty_tm_def demo_device_def demo_user_def demo_finger_def)
  then have "ok" using r by simp
  with block_user_backup_before_delete [OF r k] obtain calls where
    "dev_log c = dev_log demo_device @ calls" "bok" "has_backup t ''1001''"
    "\<exists>user. device_user demo_device ''1001'' = Some user
       \<and> DeleteUser (u_uid user) \<in> set calls
       \<and> dev_users c = filter (\<lambda>u. u_uid u \<noteq> u_uid user) (dev_users demo_device)"
    "\<forall>uid. DeleteUser uid \<in> set calls \<longrightarrow> calls = [GetUsers, GetTemplates, GetUsers, DeleteUser uid]"
    by blast
  then show ?thesis using r k ok
    by (auto simp: demo_device_user) (simp_all add: demo_device_def demo_user_def)
qed

subsection \<open>AutoBlockManager.block\_user\_automatically\<close>

lemma no_fault_2:
  assumes "no_fault 2 d" and "get_users d = (r, d')"
  shows "r = Inr (dev_users d)" and "\<not> (dev_faults d' \<noteq> [] \<and> hd (dev_faults d'))"
proof -
  note g = get_users_data [OF assms(2)]
  show "r = Inr (dev_users d)"
    using assms(1) g by (cases "dev_faults d") (auto simp: no_fault_def)
  show "\<not> (dev_faults d' \<noteq> [] \<and> hd (dev_faults d'))"
    using assms(1) g by (cases "dev_faults d"; cases "tl (dev_faults d)") (auto simp: no_fault_def)
qed

text \<open>
  Claim C10. When the vault already holds a snapshot for the user id, the automatic block
  leaves the vault as it is and never reads the device's templates; with the user on the
  device and no failing call it issues only the user listing and the delete, which removes
  the user and the templates the device holds now. Nothing relates the stored snapshot to
  those templates (in the example after the theorem the stored snapshot differs from the device's). Only
  when no snapshot exists does the block run \<open>backup_user_templates\<close>, and a successful
  block then stores the snapshot of the current device state.
\<close>

theorem auto_block_reuses_existing_snapshot:
  assumes r: "block_user_automatically ab now conn user_id reason = (ok, conn', ab')"
  shows "(has_backup (ab_template_manager ab) user_id \<longrightarrow>
            ab_template_manager ab' = ab_template_manager ab
            \<and> (\<exists>calls. dev_log conn' = dev_log conn @ calls \<and> GetTemplates \<notin> set calls)
            \<and> (\<forall>user. no_fault 2 conn \<and> device_user conn user_id = Some user \<longrightarrow>
                  ok \<and> dev_log conn' = dev_log conn @ [GetUsers, DeleteUser (u_uid user)]
                  \<and> dev_users conn' = filter (\<lambda>u. u_uid u \<noteq> u_uid user) (dev_users conn)
                  \<and> dev_templates conn'
                      = filter (\<lambda>t. f_uid t \<noteq> u_uid user) (dev_templates conn)))
       \<and> (\<not> has_backup (ab_template_manager ab) user_id \<longrightarrow>
            (\<exists>bok c1 tm1. backup_user_templates (ab_template_manager ab) conn user_id = (bok, c1, tm1)
               \<and> ab_template_manager ab' = tm1 \<and> (ok \<longrightarrow> bok))
            \<and> (ok \<longrightarrow> (\<exists>user. device_user conn user_id = Some user
                          \<and> templates_db (ab_template_manager ab') user_id
                              = Some (snapshot_of conn user))))"
proof (cases "has_backup (ab_template_manager ab) user_id")
  case True
  obtain r2 c2 where g: "get_users conn = (r2, c2)" by (cases "get_users conn")
  note d2 = get_users_data [OF g]
  have tm: "ab_template_manager ab' = ab_template_manager ab"
    using r True g
    by (auto simp: block_user_automatically_def Let_def save_memberships_def
        split: prod.splits sum.splits option.splits)
  have log: "\<exists>calls. dev_log conn' = dev_log conn @ calls \<and> GetTemplates \<notin> set calls"
  proof (cases r2)
    case (Inl e)
    then have "conn' = c2" using r True g by (auto simp: block_user_automatically_def)
    then show ?thesis using d2 by auto
  next
    case (Inr users)
    show ?thesis
    proof (cases "find (\<lambda>u. u_user_id u = user_id) users")
      case None
      then have "conn' = c2" using r True g Inr by (auto simp: block_user_automatically_def)
      then show ?thesis using d2 by auto
    next
      case (Some user)
      obtain r3 c3 where dl: "delete_user c2 (u_uid user) = (r3, c3)"
        by (cases "delete_user c2 (u_uid user)")
      have "conn' = c3" using r True g Inr Some dl
        by (auto simp: block_user_automatically_def Let_def split: sum.splits)
      then show ?thesis using d2 delete_user_data [OF dl] by auto
    qed
  qed
  have del: "ok \<and> dev_log conn' = dev_log conn @ [GetUsers, DeleteUser (u_uid user)]
             \<and> dev_users conn' = filter (\<lambda>u. u_uid u \<noteq> u_uid user) (dev_users conn)
             \<and> dev_templates conn' = filter (\<lambda>t. f_uid t \<noteq> u_uid user) (dev_templates conn)"
    if nf: "no_fault 2 conn" and u: "device_user conn user_id = Some user" for user
  proof -
    from no_fault_2 [OF nf g] have r2: "r2 = Inr (dev_users conn)"
      and nf2: "\<not> (dev_faults c2 \<noteq> [] \<and> hd (dev_faults c2))" by auto
    obtain r3 c3 where dl: "delete_user c2 (u_uid user) = (r3, c3)"
      by (cases "delete_user c2 (u_uid user)")
    have r3: "r3 = Inr ()" "c3 = c2\<lparr>dev_faults := tl (dev_faults c2), dev_log := dev_log c2 @ [DeleteUser (u_uid user)],
         dev_users := filter (\<lambda>u. u_uid u \<noteq> u_uid user) (dev_users c2),
         dev_templates := filter (\<lambda>t. f_uid t \<noteq> u_uid user) (dev_templates c2)\<rparr>"
      using dl nf2 by (auto simp: delete_user_def issue_def split: list.splits)
    have "ok" "conn' = c3"
      using r True g r2 u dl r3(1)
      by (auto simp: block_user_automatically_def device_user_def Let_def)
    then show ?thesis using r3 d2 by simp
  qed
  show ?thesis using True tm log del by blast
next
  case False
  obtain bok c1 tm1 where bk: "backup_user_templates (ab_template_manager ab) conn user_id = (bok, c1, tm1)"
    by (cases "backup_user_templates (ab_template_manager ab) conn user_id")
  have tm: "ab_template_manager ab' = tm1" and okb: "ok \<longrightarrow> bok"
    using r False bk
    by (cases bok; auto simp: block_user_automatically_def Let_def save_memberships_def
        split: prod.splits sum.splits option.splits)+
  have "\<exists>user. device_user conn user_id = Some user
          \<and> templates_db (ab_template_manager ab') user_id = Some (snapshot_of conn user)" if ok
  proof -
    from that okb have bok by simp
    with backup_cases [OF bk] tm show ?thesis by (auto simp: save_templates_def)
  qed
  then show ?thesis using False bk tm okb by blast
qed

theorem auto_block_reuses_existing_snapshot_witness:
  "has_backup (ab_template_manager (empty_ab\<lparr>ab_template_manager := stale_tm\<rparr>)) ''1001''
   \<and> no_fault 2 demo_device \<and> device_user demo_device ''1001'' = Some demo_user
   \<and> snapshot_of demo_device demo_user \<noteq> stale_snapshot
   \<and> (let res = block_user_automatically (empty_ab\<lparr>ab_template_manager := stale_tm\<rparr>)
                   (2025, 1, 1, 0, 0, 0, 0) demo_device ''1001'' ''x''
      in fst res \<and> dev_users (fst (snd res)) = [] \<and> dev_templates (fst (snd res)) = []
         \<and> dev_log (fst (snd res)) = [GetUsers, DeleteUser 1]
         \<and> templates_db (ab_template_manager (snd (snd res))) ''1001'' = Some stale_snapshot)"
proof -
  let ?ab = "empty_ab\<lparr>ab_template_manager := stale_tm\<rparr>"
  obtain ok c a where r: "block_user_automatically ?ab (2025, 1, 1, 0, 0, 0, 0) demo_device ''1001'' ''x'' = (ok, c, a)"
    by (cases "block_user_automatically ?ab (2025, 1, 1, 0, 0, 0, 0) demo_device ''1001'' ''x''")
  have hb: "has_backup (ab_template_manager ?ab) ''1001''"
    by (simp add: has_backup_def stale_tm_def)
  have nf: "no_fault 2 demo_device" by (simp add: no_fault_def demo_device_def)
  have ne: "snapshot_of demo_device demo_user \<noteq> stale_snapshot"
    by (simp add: snapshot_of_def stale_snapshot_def demo_templates template_entry_def demo_finger_def)
  from auto_block_reuses_existing_snapshot [OF r] hb nf demo_device_user
  have "ab_template_manager a = ab_template_manager ?ab" "ok"
    "dev_log c = dev_log demo_device @ [GetUsers, DeleteUser (u_uid demo_user)]"
    "dev_users c = filter (\<lambda>u. u_uid u \<noteq> u_uid demo_user) (dev_users demo_device)"
    "dev_templates c = filter (\<lambda>t. f_uid t \<noteq> u_uid demo_user) (dev_templates demo_device)"
    by blast+
  then show ?thesis using r hb nf ne demo_device_user
    by (simp add: demo_device_def demo_user_def demo_finger_def stale_tm_def)
qed

subsection \<open>Hexadecimal text of a payload\<close>

lemma lt16_cases:
  assumes "n < (16::nat)"
  shows "n \<in> {0, 1, 2, 3, 4, 5, 6, 7, 8, 9, 10, 11, 12, 13, 14, 15}"
  using assms by simp arith

lemma hex_value_digit: "n < 16 \<Longrightarrow> hex_value (hex_digit n) = Some n"
  by (drule lt16_cases) (auto simp: hex_value_def hex_digit_def)

lemma hex_space_digit: "n < 16 \<Longrightarrow> \<not> hex_space (hex_digit n)"
  by (drule lt16_cases) (auto simp: hex_space_def hex_digit_def)

lemma byte_nibbles: "unat (b :: byte) div 16 < 16" "unat b mod 16 < 16"
proof -
  have "unat b < 256" using unsigned_less [of b, where ?'a = nat] by simp
  then show "unat b div 16 < 16" by simp
  show "unat b mod 16 < 16" by simp
qed

lemma byte_of_nibbles: "(of_nat (16 * (unat (b :: byte) div 16) + unat b mod 16) :: byte) = b"
  by simp

lemma bytes_fromhex_hex: "bytes_fromhex (bytes_hex bs) = Inr bs"
  by (induction bs) (simp_all add: hex_value_digit hex_space_digit byte_nibbles)

subsection \<open>Restore followed by backup\<close>

lemma restore_fingers_data:
  "restore_fingers ts = Inr fs \<Longrightarrow>
     length fs = length ts \<and> map f_fid fs = map td_fid ts
     \<and> map (\<lambda>t. bytes_fromhex (td_template t)) ts = map (\<lambda>f. Inr (f_template f)) fs"
  by (induction ts arbitrary: fs) (auto simp: Finger_def split: sum.splits)

lemma save_user_template_data:
  "save_user_template d user fingers = (r, d') \<Longrightarrow>
     dev_attendance d' = dev_attendance d \<and> dev_log d' = dev_log d @ [SaveUserTemplate (u_uid user)]
     \<and> dev_faults d' = tl (dev_faults d)
     \<and> (case r of
          Inl e \<Rightarrow> dev_users d' = dev_users d \<and> dev_templates d' = dev_templates d
        | Inr _ \<Rightarrow> dev_users d' = filter (\<lambda>u. u_uid u \<noteq> u_uid user) (dev_users d) @ [user]
                   \<and> dev_templates d' = filter (\<lambda>t. f_uid t \<noteq> u_uid user) (dev_templates d)
                                          @ map (\<lambda>t. t\<lparr>f_uid := u_uid user\<rparr>) fingers)"
  unfolding save_user_template_def
  by (cases "issue (SaveUserTemplate (u_uid user)) d") (auto dest!: issue_data split: bool.splits)

lemma restore_cases:
  assumes "restore_user_templates tm conn user_id = (ok, conn', tm')"
  shows "tm' = tm \<and>
         (ok \<longrightarrow> (\<exists>old fingers. templates_db tm user_id = Some old
                   \<and> restore_fingers (b_templates old) = Inr fingers
                   \<and> dev_users conn' = filter (\<lambda>u. u_uid u \<noteq> ud_uid (b_user old)) (dev_users conn)
                                        @ [restored_user (b_user old)]
                   \<and> dev_templates conn' = filter (\<lambda>t. f_uid t \<noteq> ud_uid (b_user old)) (dev_templates conn)
                                        @ map (\<lambda>t. t\<lparr>f_uid := ud_uid (b_user old)\<rparr>) fingers))"
proof (cases "templates_db tm user_id")
  case None
  then show ?thesis using assms by (auto simp: restore_user_templates_def)
next
  case (Some old)
  show ?thesis
  proof (cases "restore_fingers (b_templates old)")
    case (Inl e)
    then show ?thesis using assms Some by (auto simp: restore_user_templates_def Let_def)
  next
    case (Inr fingers)
    obtain r d where sv: "save_user_template conn (restored_user (b_user old)) fingers = (r, d)"
      by (cases "save_user_template conn (restored_user (b_user old)) fingers")
    have uid: "u_uid (restored_user (b_user old)) = ud_uid (b_user old)"
      by (simp add: restored_user_def)
    from save_user_template_data [OF sv] assms Some Inr sv show ?thesis
      unfolding uid
      by (auto simp: restore_user_templates_def Let_def restored_user_def [symmetric]
               split: sum.splits)
  qed
qed

lemma find_unique_appended:
  assumes "\<forall>u \<in> set us. P u \<longrightarrow> \<not> Q u"
  shows "find P (filter Q us @ [v]) = (if P v then Some v else None)"
  using assms by (induction us) auto

lemma stored_payloads_entries:
  "map (\<lambda>t. bytes_fromhex (td_template t)) (map template_entry fs) = map (\<lambda>f. Inr (f_template f)) fs"
  by (induction fs) (simp_all add: template_entry_def bytes_fromhex_hex)

text \<open>
  Claim C8, as the code has it. Take a user id with a snapshot in the vault, a device on
  which no other device identity carries that user id, a restore that succeeds and a
  backup after it that succeeds. Every stored payload text of the old snapshot decodes
  (\<open>bytes.fromhex\<close>) to bytes; after the restore the device holds exactly these bytes, in
  order, under the restored identity; and the snapshot the backup writes is equivalent to
  the old one: as many templates, the same slot ids, and payload texts that decode to the
  same bytes (they are the lower-case hexadecimal text of these bytes).
\<close>

theorem restore_then_backup_roundtrip:
  assumes old: "templates_db tm user_id = Some old"
    and uniq: "\<forall>u \<in> set (dev_users conn). u_user_id u = user_id \<longrightarrow> u_uid u = ud_uid (b_user old)"
    and rs: "restore_user_templates tm conn user_id = (True, c1, tm1)"
    and bk: "backup_user_templates tm1 c1 user_id = (True, c2, tm2)"
  shows "\<exists>new payloads. stored_payloads old = map Inr payloads
           \<and> device_payloads c1 (ud_uid (b_user old)) = payloads
           \<and> templates_db tm2 user_id = Some new
           \<and> equivalent_templates old new
           \<and> stored_payloads new = map Inr payloads
           \<and> map td_template (b_templates new) = map bytes_hex payloads
           \<and> map td_fid (b_templates new) = map td_fid (b_templates old)"
proof -
  let ?uid = "ud_uid (b_user old)"
  let ?U = "restored_user (b_user old)"
  from restore_cases [OF rs] old obtain fingers where
    tm1: "tm1 = tm"
    and fs: "restore_fingers (b_templates old) = Inr fingers"
    and us: "dev_users c1 = filter (\<lambda>u. u_uid u \<noteq> ?uid) (dev_users conn) @ [?U]"
    and ts: "dev_templates c1 = filter (\<lambda>t. f_uid t \<noteq> ?uid) (dev_templates conn)
                                 @ map (\<lambda>t. t\<lparr>f_uid := ?uid\<rparr>) fingers"
    by auto
  from backup_cases [OF bk] obtain user where
    u: "device_user c1 user_id = Some user"
    and tm2: "templates_db tm2 user_id = Some (snapshot_of c1 user)"
    by (auto simp: save_templates_def)
  have "device_user c1 user_id = (if u_user_id ?U = user_id then Some ?U else None)"
    unfolding device_user_def us
    by (rule find_unique_appended) (use uniq in auto)
  with u have user: "user = ?U" by (auto split: if_splits)
  have uid: "u_uid ?U = ?uid" by (simp add: restored_user_def)
  have flt: "filter (\<lambda>t. f_uid t = ?uid) (dev_templates c1) = map (\<lambda>t. t\<lparr>f_uid := ?uid\<rparr>) fingers"
    unfolding ts by (simp add: filter_empty_conv)
  have tpl: "templates_of c1 user = map (\<lambda>t. t\<lparr>f_uid := ?uid\<rparr>) fingers"
    unfolding templates_of_def user uid by (rule flt)
  let ?new = "snapshot_of c1 user"
  let ?payloads = "map f_template fingers"
  have new: "b_templates ?new = map template_entry (map (\<lambda>t. t\<lparr>f_uid := ?uid\<rparr>) fingers)"
    by (simp add: snapshot_of_def tpl)
  note rd = restore_fingers_data [OF fs]
  have 1: "stored_payloads old = map Inr ?payloads"
    using rd by (simp add: stored_payloads_def comp_def)
  have 2: "device_payloads c1 ?uid = ?payloads"
    by (simp add: device_payloads_def flt comp_def)
  have 3: "stored_payloads ?new = map Inr ?payloads"
    unfolding stored_payloads_def new stored_payloads_entries by (simp add: comp_def)
  have 4: "length (b_templates ?new) = length (b_templates old)"
    using rd by (simp add: new)
  have 5: "map td_template (b_templates ?new) = map bytes_hex ?payloads"
    by (simp add: new template_entry_def comp_def)
  have 6: "map td_fid (b_templates ?new) = map td_fid (b_templates old)"
    using rd by (simp add: new template_entry_def comp_def)
  have 7: "equivalent_templates old ?new"
    by (simp add: equivalent_templates_def 1 3 4)
  show ?thesis using tm2 1 2 3 5 6 7 by blast
qed

lemmas eval_defs = restore_user_templates_def backup_user_templates_def get_users_def
  get_templates_def save_user_template_def delete_user_def issue_def stale_tm_def
  stale_snapshot_def demo_device_def demo_user_def demo_finger_def user_entry_def
  template_entry_def Finger_def hex_value_def hex_space_def hex_digit_def save_templates_def
  stored_payloads_def device_payloads_def equivalent_templates_def reenrolled_device_def
  reenrolled_restore_def reenrolled_backup_def Let_def

theorem restore_then_backup_roundtrip_witness:
  "templates_db stale_tm ''1001'' = Some stale_snapshot
   \<and> map u_uid (filter (\<lambda>u. u_user_id u = ''1001'') (dev_users demo_device))
       = [ud_uid (b_user stale_snapshot)]
   \<and> (let r1 = restore_user_templates stale_tm demo_device ''1001'';
           r2 = backup_user_templates (snd (snd r1)) (fst (snd r1)) ''1001''
       in fst r1 \<and> fst r2
          \<and> stored_payloads stale_snapshot = [Inr [0x0B, 0x0C]]
          \<and> device_payloads (fst (snd r1)) (ud_uid (b_user stale_snapshot)) = [[0x0B, 0x0C]]
          \<and> (\<exists>new. templates_db (snd (snd r2)) ''1001'' = Some new
                 \<and> equivalent_templates stale_snapshot new
                 \<and> stored_payloads new = [Inr [0x0B, 0x0C]]
                 \<and> map td_template (b_templates new) = [''0b0c'']))"
proof -
  let ?r1 = "restore_user_templates stale_tm demo_device ''1001''"
  let ?r2 = "backup_user_templates (snd (snd ?r1)) (fst (snd ?r1)) ''1001''"
  have old: "templates_db stale_tm ''1001'' = Some stale_snapshot"
    by (simp add: stale_tm_def)
  have uniq: "\<forall>u \<in> set (dev_users demo_device).
         u_user_id u = ''1001'' \<longrightarrow> u_uid u = ud_uid (b_user stale_snapshot)"
    by (simp add: eval_defs)
  have ok1: "fst ?r1" by (simp add: eval_defs)
  have ok2: "fst ?r2" by (simp add: eval_defs)
  have p: "stored_payloads stale_snapshot = [Inr [0x0B, 0x0C]]"
    by (simp add: eval_defs)
  have rs: "?r1 = (True, fst (snd ?r1), snd (snd ?r1))"
    using ok1 by (cases ?r1) simp
  have bk: "?r2 = (True, fst (snd ?r2), snd (snd ?r2))"
    using ok2 by (cases ?r2) simp
  from restore_then_backup_roundtrip [OF old uniq rs bk]
  obtain new payloads where f:
    "stored_payloads stale_snapshot = map Inr payloads"
    "device_payloads (fst (snd ?r1)) (ud_uid (b_user stale_snapshot)) = payloads"
    "templates_db (snd (snd ?r2)) ''1001'' = Some new"
    "equivalent_templates stale_snapshot new"
    "stored_payloads new = map Inr payloads"
    "map td_template (b_templates new) = map bytes_hex payloads"
    by blast
  from f(1) p have "map (Inr :: byte list \<Rightarrow> exn + byte list) payloads = map Inr [[0x0B, 0x0C]]"
    by simp
  then have pl: "payloads = [[0x0B, 0x0C]]"
    by (simp only: inj_map_eq_map [OF inj_Inr])
  have "device_payloads (fst (snd ?r1)) (ud_uid (b_user stale_snapshot)) = [[0x0B, 0x0C]]
     \<and> (\<exists>new. templates_db (snd (snd ?r2)) ''1001'' = Some new
                 \<and> equivalent_templates stale_snapshot new
                 \<and> stored_payloads new = [Inr [0x0B, 0x0C]]
                 \<and> map td_template (b_templates new) = [''0b0c''])"
    using f(2-6) unfolding pl by (simp add: hex_digit_def)
  moreover have "map u_uid (filter (\<lambda>u. u_user_id u = ''1001'') (dev_users demo_device))
       = [ud_uid (b_user stale_snapshot)]"
    by (simp add: eval_defs)
  ultimately show ?thesis using old ok1 ok2 p unfolding Let_def by blast
qed

text \<open>
  Claim C8 as stated fails when the device holds the user id under another device
  identity, as it does after the user was enrolled again. The vault holds the old snapshot
  of user 1001 (identity 1, payload \<open>0b0c\<close>), the device the new enrolment (identity 7,
  payload \<open>4af007\<close>). The restore succeeds and uploads identity 1; the backup succeeds,
  finds identity 7 first and overwrites the snapshot with its template: the payload bytes
  are no longer those of the old snapshot.
\<close>

text \<open>
  Claim C8 as stated fails when the device holds the user id under another device
  identity, as it does after the user was enrolled again. The vault holds the old snapshot
  of user 1001 (identity 1, payload \<open>0B0c\<close>), the device the new enrolment (identity 7,
  payload \<open>4af007\<close>). The restore succeeds and uploads identity 1; the backup succeeds,
  finds identity 7 first and overwrites the snapshot with its template: the payload bytes
  are no longer those of the old snapshot.
\<close>

theorem reenrolled_roundtrip_counterexample:
  "templates_db stale_tm ''1001'' = Some stale_snapshot
   \<and> fst reenrolled_restore \<and> fst reenrolled_backup
   \<and> map td_template (b_templates (the (templates_db (snd (snd reenrolled_backup)) ''1001'')))
       = [''4af007'']
   \<and> \<not> equivalent_templates stale_snapshot
         (the (templates_db (snd (snd reenrolled_backup)) ''1001''))"
proof -
  have 1: "templates_db stale_tm ''1001'' = Some stale_snapshot"
    by (simp add: stale_tm_def)
  have 2: "fst reenrolled_restore" by (simp add: eval_defs)
  have 3: "fst reenrolled_backup" by (simp add: eval_defs)
  have 4: "map td_template (b_templates (the (templates_db (snd (snd reenrolled_backup)) ''1001'')))
       = [''4af007'']" by (simp add: eval_defs)
  have "stored_payloads (the (templates_db (snd (snd reenrolled_backup)) ''1001''))
          = [Inr [0x4A, 0xF0, 0x07]]"
    by (simp add: eval_defs)
  moreover have "stored_payloads stale_snapshot = [Inr [0x0B, 0x0C]]"
    by (simp add: eval_defs)
  ultimately have 5: "\<not> equivalent_templates stale_snapshot
         (the (templates_db (snd (snd reenrolled_backup)) ''1001''))"
    unfolding equivalent_templates_def by simp
  show ?thesis using 1 2 3 4 5 by blast
qed

subsection \<open>MembershipManager.validate\_membership\<close>

lemma strptime_midnight:
  "strptime v = Inr t \<Longrightarrow> \<exists>y m d. t = (y, m, d, 0, 0, 0, 0) \<and> valid_date (y, m, d)"
  by (auto simp: strptime_def strptime_date_def midnight_def
           split: pyval.splits list.splits option.splits if_splits)

lemma strptime_truthy: "strptime v = Inr t \<Longrightarrow> truthy v"
  by (cases v) (auto simp: strptime_def strptime_date_def)

lemma past_date_gt:
  fixes now t :: datetime
  assumes "t = (y, m, d, 0, 0, 0, 0)" and "dt_date t < dt_date now"
  shows "now > t"
  using assms by (cases now) (auto simp: dt_date_def)

lemma future_date_not_gt:
  fixes now t :: datetime
  assumes "dt_date now < dt_date t"
  shows "\<not> now > t"
  using assms by (cases now; cases t) (auto simp: dt_date_def)

text \<open>
  Claim C4. For a registered record with status \<open>active\<close> whose expiration date parses:
  when the date is before today's date, one call of \<open>validate_membership\<close> denies, sets the
  status to \<open>expired\<close> and writes the registry to the file; when the date is after today's
  date and the visit count is an integer \<open>n\<close>, the call allows, sets the visit count to
  \<open>n + 1\<close>, stamps \<open>last_visit\<close> with the current time and writes the registry to the file.
\<close>

theorem validate_membership_lazy_expiry:
  assumes reg: "mm_users mm (strip user_id) = Some user"
    and st: "user ''status'' = Some (PStr ''active'')"
    and ex: "user ''expiration_date'' = Some (PStr e)"
    and parse: "strptime (PStr e) = Inr exp_date"
    and res: "validate_membership mm now user_id = ((ok, reason), mm')"
  shows "(dt_date exp_date < dt_date now \<longrightarrow>
            \<not> ok
            \<and> mm_users mm' = (mm_users mm)(strip user_id \<mapsto> user(''status'' \<mapsto> PStr ''expired''))
            \<and> mm_data_file mm' = mm_users mm')
       \<and> (dt_date now < dt_date exp_date \<longrightarrow>
            (\<forall>n. dict_get user ''visit_count'' (PInt 0) = PInt n \<longrightarrow>
              ok
              \<and> mm_users mm' = (mm_users mm)(strip user_id \<mapsto>
                   user(''last_visit'' \<mapsto> PStr (strftime now), ''visit_count'' \<mapsto> PInt (n + 1)))
              \<and> mm_data_file mm' = mm_users mm'))"
proof -
  have tr: "truthy (PStr e)" using strptime_truthy [OF parse] .
  have dg: "dict_get user ''expiration_date'' PNone = PStr e"
    by (simp add: dict_get_def ex)
  from strptime_midnight [OF parse] obtain y m d where t: "exp_date = (y, m, d, 0, 0, 0, 0)"
    by blast
  have 1: "\<not> ok \<and> mm_users mm' = (mm_users mm)(strip user_id \<mapsto> user(''status'' \<mapsto> PStr ''expired''))
            \<and> mm_data_file mm' = mm_users mm'" if "dt_date exp_date < dt_date now"
  proof -
    have "now > exp_date" using past_date_gt [OF t that] .
    then show ?thesis using res reg st dg tr parse
      by (auto simp: validate_membership_def Let_def save_data_def)
  qed
  have 2: "ok \<and> mm_users mm' = (mm_users mm)(strip user_id \<mapsto>
                   user(''last_visit'' \<mapsto> PStr (strftime now), ''visit_count'' \<mapsto> PInt (n + 1)))
              \<and> mm_data_file mm' = mm_users mm'"
    if "dt_date now < dt_date exp_date" and vc: "dict_get user ''visit_count'' (PInt 0) = PInt n" for n
  proof -
    have ng: "\<not> now > exp_date" using future_date_not_gt [OF that(1)] .
    have vc': "dict_get (user(''last_visit'' \<mapsto> PStr (strftime now))) ''visit_count'' (PInt 0) = PInt n"
      using vc by (simp add: dict_get_def)
    show ?thesis using res reg st dg tr parse ng vc'
      by (auto simp: validate_membership_def Let_def save_data_def)
  qed
  show ?thesis using 1 2 by blast
qed

lemma strptime_demo_past: "strptime (PStr ''2025-03-09'') = Inr (2025, 3, 9, 0, 0, 0, 0)"
  by (simp add: strptime_def strptime_date_def digits_field_def day_field_def is_digit_def number_val_def
      digit_val_def
      valid_date_def days_in_month_def midnight_def)

lemma strptime_demo_future: "strptime (PStr ''2025-04-02'') = Inr (2025, 4, 2, 0, 0, 0, 0)"
  by (simp add: strptime_def strptime_date_def digits_field_def day_field_def is_digit_def number_val_def
      digit_val_def
      valid_date_def days_in_month_def midnight_def is_leap_def)

lemma strip_demo: "strip ''1001'' = ''1001''"
  by (simp add: strip_def py_isspace_def)

theorem validate_membership_lazy_expiry_witness:
  "(let now = (2025, 3, 10, 15, 30, 0, 0);
        r1 = validate_membership (demo_mm ''2025-03-09'') now ''1001'';
        r2 = validate_membership (demo_mm ''2025-04-02'') now ''1001''
    in dt_date (2025, 3, 9, 0, 0, 0, 0) < dt_date now
       \<and> \<not> fst (fst r1)
       \<and> (the (mm_users (snd r1) ''1001'')) ''status'' = Some (PStr ''expired'')
       \<and> (the (mm_data_file (snd r1) ''1001'')) ''status'' = Some (PStr ''expired'')
       \<and> dt_date now < dt_date (2025, 4, 2, 0, 0, 0, 0)
       \<and> fst (fst r2)
       \<and> (the (mm_users (snd r2) ''1001'')) ''visit_count'' = Some (PInt 5)
       \<and> (the (mm_data_file (snd r2) ''1001'')) ''visit_count'' = Some (PInt 5)
       \<and> (the (mm_users (snd r2) ''1001'')) ''last_visit'' = Some (PStr (strftime now)))"
proof -
  let ?now = "(2025, 3, 10, 15, 30, 0, 0) :: datetime"
  let ?r1 = "validate_membership (demo_mm ''2025-03-09'') ?now ''1001''"
  let ?r2 = "validate_membership (demo_mm ''2025-04-02'') ?now ''1001''"
  have reg: "mm_users (demo_mm x) (strip ''1001'') = Some (demo_member x)" for x
    by (simp add: strip_demo demo_mm_def)
  have st: "demo_member x ''status'' = Some (PStr ''active'')" for x
    by (simp add: demo_member_def)
  have ex: "demo_member x ''expiration_date'' = Some (PStr x)" for x
    by (simp add: demo_member_def)
  have vc: "dict_get (demo_member x) ''visit_count'' (PInt 0) = PInt 4" for x
    by (simp add: demo_member_def dict_get_def)
  have past: "dt_date (2025, 3, 9, 0, 0, 0, 0) < dt_date ?now" by (simp add: dt_date_def)
  have fut: "dt_date ?now < dt_date (2025, 4, 2, 0, 0, 0, 0)" by (simp add: dt_date_def)
  have r1: "?r1 = ((fst (fst ?r1), snd (fst ?r1)), snd ?r1)" by simp
  have r2: "?r2 = ((fst (fst ?r2), snd (fst ?r2)), snd ?r2)" by simp
  from validate_membership_lazy_expiry [OF reg st ex strptime_demo_past r1] past
  have a: "\<not> fst (fst ?r1)"
    "mm_users (snd ?r1) = (mm_users (demo_mm ''2025-03-09''))(strip ''1001'' \<mapsto>
        (demo_member ''2025-03-09'')(''status'' \<mapsto> PStr ''expired''))"
    "mm_data_file (snd ?r1) = mm_users (snd ?r1)"
    by blast+
  from validate_membership_lazy_expiry [OF reg st ex strptime_demo_future r2] fut vc
  have b: "fst (fst ?r2)"
    "mm_users (snd ?r2) = (mm_users (demo_mm ''2025-04-02''))(strip ''1001'' \<mapsto>
        (demo_member ''2025-04-02'')(''last_visit'' \<mapsto> PStr (strftime ?now),
                                    ''visit_count'' \<mapsto> PInt (4 + 1)))"
    "mm_data_file (snd ?r2) = mm_users (snd ?r2)"
    by blast+
  show ?thesis
    unfolding Let_def using past fut a(1) b(1)
    by (simp add: a(2,3) b(2,3) strip_demo)
qed

subsection \<open>AutoBlockManager.should\_block\_user\<close>

lemma delta_days_calendar:
  assumes "valid_datetime now" and "t = (y, m, d, 0, 0, 0, 0)"
  shows "delta_days now t = int (ymd2ord (dt_date now)) - int (ymd2ord (dt_date t))"
proof -
  obtain y' m' d' hh mi ss us where now: "now = (y', m', d', hh, mi, ss, us)"
    by (cases now) auto
  define tod :: int where "tod = ((int hh * 60 + int mi) * 60 + int ss) * 1000000 + int us"
  have b: "hh < 24" "mi < 60" "ss < 60" "us < 1000000"
    using assms(1) by (auto simp: valid_datetime_def now)
  have tod: "0 \<le> tod" "tod < 86400000000"
    using b unfolding tod_def by auto
  have "to_micro now - to_micro t
        = (int (ymd2ord (y', m', d')) - int (ymd2ord (y, m, d))) * 86400000000 + tod"
    by (simp add: to_micro_def now assms(2) tod_def algebra_simps)
  then have "delta_days now t = int (ymd2ord (y', m', d')) - int (ymd2ord (y, m, d))"
    using tod by (simp add: delta_days_def)
  then show ?thesis by (simp add: dt_date_def now assms(2))
qed

text \<open>The comparison \<open>now > exp_date\<close> of the code, for an expiration date at midnight, in
  terms of calendar dates: the date is before today, or it is today and midnight has
  passed.\<close>

lemma now_after_midnight_iff:
  fixes now t :: datetime
  assumes "t = (y, m, d, 0, 0, 0, 0)"
  shows "now > t \<longleftrightarrow> dt_date t < dt_date now \<or> (dt_date t = dt_date now \<and> now \<noteq> t)"
  using assms by (cases now) (auto simp: dt_date_def)

text \<open>
  Claim C7, as the code has it. \<open>should_block_user\<close> decides by the first match: a user id
  that is not registered, false; status \<open>blocked\<close>, true; status \<open>inactive\<close>, true; no
  expiration date, true; an expiration date before today, or today once midnight has
  passed, true, with the number of days from the expiration date to today in the reason
  (0 on the expiration day itself); an expiration date after today (or today at midnight
  sharp), false. A stored expiration date that is not a calendar date gives true.
\<close>

theorem should_block_user_precedence:
  "(ab_memberships ab user_id = None \<longrightarrow> \<not> fst (should_block_user ab now user_id))
   \<and> (\<forall>m. ab_memberships ab user_id = Some m \<longrightarrow>
         (m ''status'' = Some (PStr ''blocked'') \<longrightarrow>
            should_block_user ab now user_id = (True, ''Ya est'' @ a_acute @ '' bloqueado''))
       \<and> (m ''status'' = Some (PStr ''inactive'') \<longrightarrow>
            should_block_user ab now user_id = (True, ''Usuario inactivo''))
       \<and> (m ''status'' \<noteq> Some (PStr ''blocked'') \<and> m ''status'' \<noteq> Some (PStr ''inactive'') \<longrightarrow>
            (\<not> truthy (dict_get m ''expiration_date'' PNone) \<longrightarrow>
               should_block_user ab now user_id = (True, ''Sin fecha de vencimiento''))
          \<and> (\<forall>exp_date. strptime (dict_get m ''expiration_date'' PNone) = Inr exp_date \<longrightarrow>
               (dt_date exp_date < dt_date now
                  \<or> (dt_date exp_date = dt_date now \<and> now \<noteq> exp_date) \<longrightarrow>
                  should_block_user ab now user_id
                    = (True, ''Membres'' @ i_acute @ ''a vencida hace ''
                             @ str_int (delta_days now exp_date) @ '' d'' @ i_acute @ ''as'')
                  \<and> (valid_datetime now \<longrightarrow>
                        delta_days now exp_date
                          = int (ymd2ord (dt_date now)) - int (ymd2ord (dt_date exp_date))))
             \<and> (dt_date now < dt_date exp_date \<or> now = exp_date \<longrightarrow>
                  \<not> fst (should_block_user ab now user_id)))
          \<and> (\<forall>e. truthy (dict_get m ''expiration_date'' PNone)
                  \<and> strptime (dict_get m ''expiration_date'' PNone) = Inl e \<longrightarrow>
               fst (should_block_user ab now user_id))))"
proof -
  have 1: "ab_memberships ab user_id = None \<longrightarrow> \<not> fst (should_block_user ab now user_id)"
    by (simp add: should_block_user_def)
  have 2: "should_block_user ab now user_id = (True, ''Ya est'' @ a_acute @ '' bloqueado'')"
    if "ab_memberships ab user_id = Some m" "m ''status'' = Some (PStr ''blocked'')" for m
    using that by (simp add: should_block_user_def dict_get_def)
  have 3: "should_block_user ab now user_id = (True, ''Usuario inactivo'')"
    if "ab_memberships ab user_id = Some m" "m ''status'' = Some (PStr ''inactive'')" for m
    using that by (simp add: should_block_user_def dict_get_def)
  have st: "dict_get m ''status'' (PStr ''unknown'') \<noteq> PStr ''blocked''
            \<and> dict_get m ''status'' (PStr ''unknown'') \<noteq> PStr ''inactive''"
    if "m ''status'' \<noteq> Some (PStr ''blocked'')" "m ''status'' \<noteq> Some (PStr ''inactive'')"
    for m :: membership
    using that by (auto simp: dict_get_def split: option.splits)
  have 4: "should_block_user ab now user_id = (True, ''Sin fecha de vencimiento'')"
    if "ab_memberships ab user_id = Some m" "m ''status'' \<noteq> Some (PStr ''blocked'')"
      "m ''status'' \<noteq> Some (PStr ''inactive'')"
      "\<not> truthy (dict_get m ''expiration_date'' PNone)" for m
    using that st [of m] by (simp add: should_block_user_def Let_def)
  have 5: "should_block_user ab now user_id
             = (True, ''Membres'' @ i_acute @ ''a vencida hace ''
                      @ str_int (delta_days now exp_date) @ '' d'' @ i_acute @ ''as'')
           \<and> (valid_datetime now \<longrightarrow>
                 delta_days now exp_date
                   = int (ymd2ord (dt_date now)) - int (ymd2ord (dt_date exp_date)))"
    if "ab_memberships ab user_id = Some m" "m ''status'' \<noteq> Some (PStr ''blocked'')"
      "m ''status'' \<noteq> Some (PStr ''inactive'')"
      "strptime (dict_get m ''expiration_date'' PNone) = Inr exp_date"
      "dt_date exp_date < dt_date now \<or> (dt_date exp_date = dt_date now \<and> now \<noteq> exp_date)"
    for m exp_date
  proof -
    from strptime_midnight [OF that(4)] obtain y mo d where t: "exp_date = (y, mo, d, 0, 0, 0, 0)"
      by blast
    have gt: "now > exp_date" using now_after_midnight_iff [OF t, of now] that(5) by simp
    show ?thesis
      using that(1-4) gt st [of m] strptime_truthy [OF that(4)] delta_days_calendar [OF _ t, of now]
      by (simp add: should_block_user_def Let_def)
  qed
  have 6: "\<not> fst (should_block_user ab now user_id)"
    if "ab_memberships ab user_id = Some m" "m ''status'' \<noteq> Some (PStr ''blocked'')"
      "m ''status'' \<noteq> Some (PStr ''inactive'')"
      "strptime (dict_get m ''expiration_date'' PNone) = Inr exp_date"
      "dt_date now < dt_date exp_date \<or> now = exp_date"
    for m exp_date
  proof -
    from strptime_midnight [OF that(4)] obtain y mo d where t: "exp_date = (y, mo, d, 0, 0, 0, 0)"
      by blast
    have ng: "\<not> now > exp_date" using now_after_midnight_iff [OF t, of now] that(5) by auto
    show ?thesis
      using that(1-4) ng st [of m] strptime_truthy [OF that(4)]
      by (simp add: should_block_user_def Let_def)
  qed
  have 7: "fst (should_block_user ab now user_id)"
    if "ab_memberships ab user_id = Some m" "m ''status'' \<noteq> Some (PStr ''blocked'')"
      "m ''status'' \<noteq> Some (PStr ''inactive'')"
      "truthy (dict_get m ''expiration_date'' PNone)"
      "strptime (dict_get m ''expiration_date'' PNone) = Inl e"
    for m e
    using that st [of m] by (simp add: should_block_user_def Let_def)
  show ?thesis
    apply (intro conjI allI impI)
    subgoal by (simp add: 1)
    subgoal by (rule 2)
    subgoal by (rule 3)
    subgoal by (rule 4) auto
    subgoal by (rule 5 [THEN conjunct1]) auto
    subgoal using 5 by blast
    subgoal by (rule 6) auto
    subgoal by (rule 7) auto
    done
qed

lemma strptime_demo_10: "strptime (PStr ''2025-03-10'') = Inr (2025, 3, 10, 0, 0, 0, 0)"
  by (simp add: strptime_def strptime_date_def digits_field_def day_field_def is_digit_def
      number_val_def digit_val_def valid_date_def days_in_month_def midnight_def)

lemma strptime_demo_today: "strptime (PStr ''2025-03-20'') = Inr (2025, 3, 20, 0, 0, 0, 0)"
  by (simp add: strptime_def strptime_date_def digits_field_def day_field_def is_digit_def
      number_val_def digit_val_def valid_date_def days_in_month_def midnight_def)

text \<open>
  Claim C7 as stated ends with "otherwise false". A registered, active record whose
  expiration date is today is not blocked, not inactive, has an expiration date, and the
  date is not in the past; yet \<open>should_block_user\<close> returns true for it during that day,
  with 0 days in the reason, because it compares the current time with the midnight that
  starts the expiration date.
\<close>

theorem should_block_expiring_today_counterexample:
  "spec_should_block (ab_memberships (demo_ab ''2025-03-20'')) (2025, 3, 20, 15, 30, 0, 0) ''1001''
     = Some False
   \<and> should_block_user (demo_ab ''2025-03-20'') (2025, 3, 20, 15, 30, 0, 0) ''1001''
       = (True, ''Membres'' @ i_acute @ ''a vencida hace 0 d'' @ i_acute @ ''as'')"
proof -
  have d: "delta_days (2025, 3, 20, 15, 30, 0, 0) (2025, 3, 20, 0, 0, 0, 0) = 0"
    by (simp add: delta_days_def to_micro_def)
  have 1: "spec_should_block (ab_memberships (demo_ab ''2025-03-20'')) (2025, 3, 20, 15, 30, 0, 0) ''1001''
     = Some False"
    by (simp add: spec_should_block_def demo_ab_def demo_member_def empty_ab_def dict_get_def
        strptime_demo_today dt_date_def)
  have 2: "should_block_user (demo_ab ''2025-03-20'') (2025, 3, 20, 15, 30, 0, 0) ''1001''
       = (True, ''Membres'' @ i_acute @ ''a vencida hace 0 d'' @ i_acute @ ''as'')"
    by (simp add: should_block_user_def demo_ab_def demo_member_def empty_ab_def dict_get_def
        strptime_demo_today Let_def d str_int_def str_nat.simps digit_char_def)
  show ?thesis using 1 2 by blast
qed

theorem should_block_user_precedence_witness:
  "\<not> fst (should_block_user empty_ab (2025, 3, 20, 15, 30, 0, 0) ''1001'')
   \<and> dt_date (2025, 3, 10, 0, 0, 0, 0) < dt_date (2025, 3, 20, 15, 30, 0, 0)
   \<and> should_block_user (demo_ab ''2025-03-10'') (2025, 3, 20, 15, 30, 0, 0) ''1001''
       = (True, ''Membres'' @ i_acute @ ''a vencida hace 10 d'' @ i_acute @ ''as'')
   \<and> valid_datetime (2025, 3, 20, 15, 30, 0, 0)
   \<and> int (ymd2ord (2025, 3, 20)) - int (ymd2ord (2025, 3, 10)) = 10
   \<and> should_block_user (demo_ab ''2025-03-20'') (2025, 3, 20, 15, 30, 0, 0) ''1001''
       = (True, ''Membres'' @ i_acute @ ''a vencida hace 0 d'' @ i_acute @ ''as'')
   \<and> dt_date (2025, 3, 10, 15, 30, 0, 0) < dt_date (2025, 3, 20, 0, 0, 0, 0)
   \<and> \<not> fst (should_block_user (demo_ab ''2025-03-20'') (2025, 3, 10, 15, 30, 0, 0) ''1001'')"
proof -
  let ?now = "(2025, 3, 20, 15, 30, 0, 0) :: datetime"
  let ?before = "(2025, 3, 10, 15, 30, 0, 0) :: datetime"
  note t = should_block_user_precedence
  have none: "ab_memberships empty_ab ''1001'' = None" by (simp add: empty_ab_def)
  have reg: "ab_memberships (demo_ab x) ''1001'' = Some (demo_member x)" for x
    by (simp add: demo_ab_def empty_ab_def)
  have st: "demo_member x ''status'' \<noteq> Some (PStr ''blocked'')
            \<and> demo_member x ''status'' \<noteq> Some (PStr ''inactive'')" for x
    by (simp add: demo_member_def)
  have ex: "dict_get (demo_member x) ''expiration_date'' PNone = PStr x" for x
    by (simp add: demo_member_def dict_get_def)
  have p10: "strptime (dict_get (demo_member ''2025-03-10'') ''expiration_date'' PNone)
               = Inr (2025, 3, 10, 0, 0, 0, 0)"
    by (simp add: ex strptime_demo_10)
  have p20: "strptime (dict_get (demo_member ''2025-03-20'') ''expiration_date'' PNone)
               = Inr (2025, 3, 20, 0, 0, 0, 0)"
    by (simp add: ex strptime_demo_today)
  have past: "dt_date (2025, 3, 10, 0, 0, 0, 0) < dt_date ?now" by (simp add: dt_date_def)
  have today: "dt_date (2025, 3, 20, 0, 0, 0, 0) = dt_date ?now \<and> ?now \<noteq> (2025, 3, 20, 0, 0, 0, 0)"
    by (simp add: dt_date_def)
  have fut: "dt_date ?before < dt_date (2025, 3, 20, 0, 0, 0, 0)" by (simp add: dt_date_def)
  have vd: "valid_datetime ?now"
    by (simp add: valid_datetime_def valid_date_def days_in_month_def)
  have days: "int (ymd2ord (2025, 3, 20)) - int (ymd2ord (2025, 3, 10)) = 10"
    by (simp add: ymd2ord_def)
  have 1: "\<not> fst (should_block_user empty_ab ?now ''1001'')"
    using t [of empty_ab "''1001''" ?now] none by blast
  have "should_block_user (demo_ab ''2025-03-10'') ?now ''1001''
          = (True, ''Membres'' @ i_acute @ ''a vencida hace ''
                   @ str_int (delta_days ?now (2025, 3, 10, 0, 0, 0, 0)) @ '' d'' @ i_acute @ ''as'')
        \<and> delta_days ?now (2025, 3, 10, 0, 0, 0, 0)
            = int (ymd2ord (dt_date ?now)) - int (ymd2ord (dt_date (2025, 3, 10, 0, 0, 0, 0)))"
    using t [of "demo_ab ''2025-03-10''" "''1001''" ?now] reg st past vd p10 by blast
  then have 2: "should_block_user (demo_ab ''2025-03-10'') ?now ''1001''
       = (True, ''Membres'' @ i_acute @ ''a vencida hace 10 d'' @ i_acute @ ''as'')"
    using days by (simp add: dt_date_def str_int_def str_nat.simps digit_char_def)
  have "should_block_user (demo_ab ''2025-03-20'') ?now ''1001''
          = (True, ''Membres'' @ i_acute @ ''a vencida hace ''
                   @ str_int (delta_days ?now (2025, 3, 20, 0, 0, 0, 0)) @ '' d'' @ i_acute @ ''as'')
        \<and> delta_days ?now (2025, 3, 20, 0, 0, 0, 0)
            = int (ymd2ord (dt_date ?now)) - int (ymd2ord (dt_date (2025, 3, 20, 0, 0, 0, 0)))"
    using t [of "demo_ab ''2025-03-20''" "''1001''" ?now] reg st today vd p20 by blast
  then have 3: "should_block_user (demo_ab ''2025-03-20'') ?now ''1001''
       = (True, ''Membres'' @ i_acute @ ''a vencida hace 0 d'' @ i_acute @ ''as'')"
    by (simp add: dt_date_def str_int_def str_nat.simps digit_char_def)
  have 4: "\<not> fst (should_block_user (demo_ab ''2025-03-20'') ?before ''1001'')"
    using t [of "demo_ab ''2025-03-20''" "''1001''" ?before] reg st fut p20 by blast
  show ?thesis using 1 2 3 4 vd days past fut by blast
qed

subsection \<open>ZKListenerThread: polling\<close>

lemma get_attendance_data:
  "get_attendance d = (r, d') \<Longrightarrow>
     dev_users d' = dev_users d \<and> dev_templates d' = dev_templates d
     \<and> dev_attendance d' = dev_attendance d \<and> dev_log d' = dev_log d @ [GetAttendance]
     \<and> dev_faults d' = tl (dev_faults d)
     \<and> (r = Inr (dev_attendance d) \<or> r = Inl DeviceError)
     \<and> (r = Inl DeviceError \<longleftrightarrow> (dev_faults d \<noteq> [] \<and> hd (dev_faults d)))"
  unfolding get_attendance_def
  by (cases "issue GetAttendance d") (auto dest!: issue_data split: bool.splits)

lemma update_record_keys:
  "map (\<lambda>e. (ev_user_id e, ev_timestamp e)) (update_record s t st rs recs)
     = map (\<lambda>e. (ev_user_id e, ev_timestamp e)) recs"
  by (induction recs) auto

lemma process_attendance_record_data:
  assumes "process_attendance_record lst clock net r = (lst', net')"
  shows "event_keys lst' = event_keys lst @ [record_key r]
         \<and> l_conn lst' = l_conn lst \<and> last_processed_time lst' = last_processed_time lst"
proof -
  obtain res api1 net1 where
    v: "validar_acceso (l_api lst) clock net (strip (a_user_id r)) 1 = (res, api1, net1)"
    by (cases "validar_acceso (l_api lst) clock net (strip (a_user_id r)) 1")
  show ?thesis
    using assms v
    by (cases res)
       (auto simp: process_attendance_record_def Let_def event_keys_def record_key_def
                   update_record_keys)
qed

lemma process_records_data:
  "process_records lst clock net rs = (lst', net') \<Longrightarrow>
     event_keys lst' = event_keys lst @ map record_key rs
     \<and> l_conn lst' = l_conn lst
     \<and> last_processed_time lst'
         = (if rs = [] then last_processed_time lst else Some (a_timestamp (last rs)))"
proof (induction rs arbitrary: lst net)
  case Nil
  then show ?case by simp
next
  case (Cons r rs)
  obtain l1 net1 where p: "process_attendance_record lst clock net r = (l1, net1)"
    by (cases "process_attendance_record lst clock net r")
  let ?l2 = "l1\<lparr>last_processed_time := Some (a_timestamp r)\<rparr>"
  from Cons.prems p have "process_records ?l2 clock net1 rs = (lst', net')" by simp
  from Cons.IH [OF this] process_attendance_record_data [OF p]
  show ?case by (simp add: event_keys_def)
qed

lemma last_sorted_Max:
  fixes f :: "'a \<Rightarrow> 'b::linorder"
  assumes "sorted (map f xs)" and "xs \<noteq> []"
  shows "f (last xs) = Max (set (map f xs))"
proof -
  have "\<forall>x \<in> set xs. f x \<le> f (last xs)"
    using assms
  proof (induction xs)
    case Nil
    then show ?case by simp
  next
    case (Cons a xs)
    then show ?case by (cases "xs = []") auto
  qed
  moreover have "f (last xs) \<in> set (map f xs)" using assms(2) by simp
  ultimately show ?thesis
    by (intro Max_eqI [symmetric]) auto
qed

lemma poll_cases:
  assumes conn: "l_conn lst = Some d"
    and fetch: "get_attendance d = (Inr records, d1)"
    and mark: "last_processed_time lst = Some mark"
    and res: "poll_and_process_records lst clock net = (exc, lst', net')"
  shows "exc = None \<and> l_conn lst' = Some d1
         \<and> process_records (lst\<lparr>l_conn := Some d1\<rparr>) clock net
              (sort_key a_timestamp (new_records mark records)) = (lst', net')"
proof (cases "records = []")
  case True
  then show ?thesis using assms
    by (auto simp: poll_and_process_records_def new_records_def)
next
  case False
  obtain l2 net2 where p: "process_records (lst\<lparr>l_conn := Some d1\<rparr>) clock net
              (sort_key a_timestamp (new_records mark records)) = (l2, net2)"
    by (cases "process_records (lst\<lparr>l_conn := Some d1\<rparr>) clock net
              (sort_key a_timestamp (new_records mark records))")
  from process_records_data [OF p] have "l_conn l2 = Some d1" by simp
  then show ?thesis using assms False p
    by (auto simp: poll_and_process_records_def new_records_def Let_def)
qed

text \<open>
  Claim C5. A polling pass whose fetch returns \<open>records\<close>, with the mark at \<open>mark\<close>,
  processes exactly the records whose timestamp is greater than the mark (as a multiset),
  in ascending order of timestamp (the stable sort of them), without raising; afterwards
  the mark is the greatest processed timestamp, and the old mark when nothing was
  processed. Starting with no mark, \<open>initialize_polling_timestamp\<close> sets it to the greatest
  timestamp of the device's records, or to the current time when there are none or there
  is no session.
\<close>

theorem poll_processes_new_records_in_order:
  "(\<forall>d records d1 mark exc lst' net'.
      l_conn lst = Some d \<and> get_attendance d = (Inr records, d1)
      \<and> last_processed_time lst = Some mark
      \<and> poll_and_process_records lst clock net = (exc, lst', net') \<longrightarrow>
      (\<exists>processed.
          event_keys lst' = event_keys lst @ map record_key processed
          \<and> mset processed = mset (new_records mark records)
          \<and> processed = sort_key a_timestamp (new_records mark records)
          \<and> sorted (map a_timestamp processed)
          \<and> exc = None
          \<and> last_processed_time lst'
              = Some (if processed = [] then mark else Max (set (map a_timestamp processed)))))
   \<and> (last_processed_time lst = None \<longrightarrow>
        (l_conn lst = None \<longrightarrow>
           last_processed_time (snd (initialize_polling_timestamp lst now)) = Some now)
      \<and> (\<forall>d records d1. l_conn lst = Some d \<and> get_attendance d = (Inr records, d1) \<longrightarrow>
           last_processed_time (snd (initialize_polling_timestamp lst now))
             = Some (if records = [] then now else Max (set (map a_timestamp records)))))"
proof (intro conjI allI impI, goal_cases)
  case (1 d records d1 mark exc lst' net')
  let ?p = "sort_key a_timestamp (new_records mark records)"
  from 1 have c: "l_conn lst = Some d" "get_attendance d = (Inr records, d1)"
    "last_processed_time lst = Some mark"
    "poll_and_process_records lst clock net = (exc, lst', net')" by auto
  from poll_cases [OF c] have exc: "exc = None"
    and p: "process_records (lst\<lparr>l_conn := Some d1\<rparr>) clock net ?p = (lst', net')" by auto
  note pd = process_records_data [OF p]
  have s: "sorted (map a_timestamp ?p)" by simp
  have "last_processed_time lst'
          = Some (if ?p = [] then mark else Max (set (map a_timestamp ?p)))"
  proof (cases "?p = []")
    case True
    with pd c(3) show ?thesis by simp
  next
    case False
    from last_sorted_Max [OF s False] pd False show ?thesis by simp
  qed
  with pd exc s show ?case
    by (intro exI [of _ ?p]) (simp add: event_keys_def)
next
  case 2
  then show ?case by (simp add: initialize_polling_timestamp_def)
next
  case (3 d records d1)
  show ?case
  proof (cases records)
    case Nil
    with 3 show ?thesis by (simp add: initialize_polling_timestamp_def)
  next
    case (Cons r rs)
    have "fold max (map a_timestamp rs) (a_timestamp r) = Max (set (map a_timestamp (r # rs)))"
      using Max.set_eq_fold [of "a_timestamp r" "map a_timestamp rs"] by simp
    with 3 Cons show ?thesis by (simp add: initialize_polling_timestamp_def)
  qed
qed

text \<open>
  Claim C6. After a polling pass, a second pass over the same device, whose fetches do not
  raise, processes nothing: the stored events, the mark and the network script are those
  the first pass left.
\<close>

theorem repoll_processes_nothing:
  assumes conn: "l_conn lst = Some d"
    and nf: "no_fault 2 d"
    and mark: "last_processed_time lst = Some mark"
    and p1: "poll_and_process_records lst clock net = (exc1, lst1, net1)"
    and p2: "poll_and_process_records lst1 clock' net1 = (exc2, lst2, net2)"
  shows "exc1 = None \<and> exc2 = None
         \<and> attendance_records lst2 = attendance_records lst1
         \<and> event_keys lst2 = event_keys lst1
         \<and> last_processed_time lst2 = last_processed_time lst1
         \<and> net2 = net1"
proof -
  obtain r d1 where g1: "get_attendance d = (r, d1)" by (cases "get_attendance d")
  note a1 = get_attendance_data [OF g1]
  have f1: "\<not> (dev_faults d \<noteq> [] \<and> hd (dev_faults d))"
    using nf by (cases "dev_faults d") (auto simp: no_fault_def)
  then have r: "r = Inr (dev_attendance d)" using a1 by auto
  let ?recs = "dev_attendance d"
  let ?p = "sort_key a_timestamp (new_records mark ?recs)"
  from poll_cases [OF conn g1 [unfolded r] mark p1]
  have e1: "exc1 = None" and c1: "l_conn lst1 = Some d1"
    and pr: "process_records (lst\<lparr>l_conn := Some d1\<rparr>) clock net ?p = (lst1, net1)" by auto
  note pd = process_records_data [OF pr]
  have s: "sorted (map a_timestamp ?p)" by simp
  obtain mark1 where m1: "last_processed_time lst1 = Some mark1"
    and mk: "mark1 = (if ?p = [] then mark else Max (set (map a_timestamp ?p)))"
  proof (cases "?p = []")
    case True
    with pd mark that show ?thesis by simp
  next
    case False
    from last_sorted_Max [OF s False] pd False that show ?thesis by simp
  qed
  have none: "new_records mark1 ?recs = []"
  proof -
    have "\<not> a_timestamp x > mark1" if x: "x \<in> set ?recs" for x
    proof (cases "?p = []")
      case True
      then have "new_records mark ?recs = []"
        by (metis length_0_conv length_sort)
      with x mk True show ?thesis by (auto simp: new_records_def filter_empty_conv)
    next
      case False
      then have mk': "mark1 = Max (set (map a_timestamp ?p))" using mk by simp
      have ne: "new_records mark ?recs \<noteq> []" using False by auto
      then obtain y where y: "y \<in> set ?recs" "a_timestamp y > mark"
        by (auto simp: new_records_def filter_empty_conv)
      then have "a_timestamp y \<le> mark1" unfolding mk'
        by (intro Max_ge) (auto simp: new_records_def)
      with y have gt: "mark < mark1" by simp
      show ?thesis
      proof (cases "a_timestamp x > mark")
        case True
        then have "a_timestamp x \<le> mark1" unfolding mk'
          using x by (intro Max_ge) (auto simp: new_records_def)
        then show ?thesis by simp
      next
        case False
        with gt show ?thesis by simp
      qed
    qed
    then show ?thesis by (auto simp: new_records_def filter_empty_conv)
  qed
  obtain r2 d2 where g2: "get_attendance d1 = (r2, d2)" by (cases "get_attendance d1")
  note a2 = get_attendance_data [OF g2]
  have f2: "\<not> (dev_faults d1 \<noteq> [] \<and> hd (dev_faults d1))"
    using nf a1 by (cases "dev_faults d"; cases "tl (dev_faults d)") (auto simp: no_fault_def)
  then have r2: "r2 = Inr ?recs" using a2 a1 by auto
  from poll_cases [OF c1 g2 [unfolded r2] m1 p2] none
  have "exc2 = None" "(lst1\<lparr>l_conn := Some d2\<rparr>, net1) = (lst2, net2)"
    by auto
  then show ?thesis using e1 by (auto simp: event_keys_def)
qed


lemma demo_fetch:
  "get_attendance (demo_device\<lparr>dev_attendance := demo_attendance\<rparr>)
     = (Inr demo_attendance,
        demo_device\<lparr>dev_attendance := demo_attendance, dev_log := [GetAttendance]\<rparr>)"
  by (simp add: get_attendance_def issue_def demo_device_def)

lemma demo_sorted:
  "sort_key a_timestamp (new_records (2025, 3, 10, 8, 0, 0, 0) demo_attendance)
     = [\<lparr>a_user_id = ''1001'', a_timestamp = (2025, 3, 10, 9, 0, 0, 0)\<rparr>,
        \<lparr>a_user_id = ''1003'', a_timestamp = (2025, 3, 10, 9, 15, 0, 0)\<rparr>,
        \<lparr>a_user_id = ''1002'', a_timestamp = (2025, 3, 10, 9, 30, 0, 0)\<rparr>]"
  by (simp add: new_records_def demo_attendance_def)

lemma demo_keys:
  "map record_key
     [\<lparr>a_user_id = ''1001'', a_timestamp = (2025, 3, 10, 9, 0, 0, 0)\<rparr>,
      \<lparr>a_user_id = ''1003'', a_timestamp = (2025, 3, 10, 9, 15, 0, 0)\<rparr>,
      \<lparr>a_user_id = ''1002'', a_timestamp = (2025, 3, 10, 9, 30, 0, 0)\<rparr>]
   = [(''1001'', ''2025-03-10 09:00:00''), (''1003'', ''2025-03-10 09:15:00''),
      (''1002'', ''2025-03-10 09:30:00'')]"
  by (simp add: record_key_def strip_def py_isspace_def strftime_def strftime_date_def
      pad4_def pad2_def str_nat.simps digit_char_def)

theorem poll_processes_new_records_in_order_witness:
  "(let res = poll_and_process_records (demo_listener (Some (2025, 3, 10, 8, 0, 0, 0))) 0 []
    in fst res = None
       \<and> event_keys (fst (snd res))
           = [(''1001'', ''2025-03-10 09:00:00''), (''1003'', ''2025-03-10 09:15:00''),
              (''1002'', ''2025-03-10 09:30:00'')]
       \<and> last_processed_time (fst (snd res)) = Some (2025, 3, 10, 9, 30, 0, 0))
   \<and> last_processed_time
         (snd (initialize_polling_timestamp (demo_listener None) (2025, 3, 11, 0, 0, 0, 0)))
       = Some (2025, 3, 10, 9, 30, 0, 0)"
proof -
  let ?mark = "(2025, 3, 10, 8, 0, 0, 0) :: datetime"
  let ?lst = "demo_listener (Some ?mark)"
  let ?res = "poll_and_process_records ?lst 0 []"
  note t = poll_processes_new_records_in_order
  have c: "l_conn (demo_listener m) = Some (demo_device\<lparr>dev_attendance := demo_attendance\<rparr>)" for m
    by (simp add: demo_listener_def)
  have m: "last_processed_time (demo_listener m) = m" for m
    by (simp add: demo_listener_def)
  have r: "?res = (fst ?res, fst (snd ?res), snd (snd ?res))" by simp
  from t [of ?lst 0 "[]", THEN conjunct1, rule_format, OF conjI [OF c conjI [OF demo_fetch conjI [OF m r]]]]
  have a: "fst ?res = None"
    "event_keys (fst (snd ?res)) = event_keys ?lst
        @ map record_key (sort_key a_timestamp (new_records ?mark demo_attendance))"
    "last_processed_time (fst (snd ?res))
       = Some (if sort_key a_timestamp (new_records ?mark demo_attendance) = [] then ?mark
               else Max (set (map a_timestamp (sort_key a_timestamp (new_records ?mark demo_attendance)))))"
    by auto
  have k: "event_keys ?lst = []" by (simp add: event_keys_def demo_listener_def)
  have 1: "event_keys (fst (snd ?res))
           = [(''1001'', ''2025-03-10 09:00:00''), (''1003'', ''2025-03-10 09:15:00''),
              (''1002'', ''2025-03-10 09:30:00'')]"
    unfolding a(2) k demo_sorted demo_keys by simp
  have 2: "last_processed_time (fst (snd ?res)) = Some (2025, 3, 10, 9, 30, 0, 0)"
    unfolding a(3) demo_sorted by simp
  from t [of "demo_listener None" 0 "[]" "(2025, 3, 11, 0, 0, 0, 0)", THEN conjunct2, rule_format,
          OF m, THEN conjunct2, rule_format, OF conjI [OF c demo_fetch]]
  have 3: "last_processed_time
         (snd (initialize_polling_timestamp (demo_listener None) (2025, 3, 11, 0, 0, 0, 0)))
       = Some (2025, 3, 10, 9, 30, 0, 0)"
    by (simp add: demo_attendance_def)
  show ?thesis unfolding Let_def using a(1) 1 2 3 by blast
qed

theorem repoll_processes_nothing_witness:
  "(let r1 = poll_and_process_records (demo_listener (Some (2025, 3, 10, 8, 0, 0, 0))) 0 [];
        r2 = poll_and_process_records (fst (snd r1)) 5 (snd (snd r1))
    in no_fault 2 (demo_device\<lparr>dev_attendance := demo_attendance\<rparr>)
       \<and> length (attendance_records (fst (snd r1))) = 3
       \<and> attendance_records (fst (snd r2)) = attendance_records (fst (snd r1))
       \<and> last_processed_time (fst (snd r2)) = Some (2025, 3, 10, 9, 30, 0, 0))"
proof -
  let ?mark = "(2025, 3, 10, 8, 0, 0, 0) :: datetime"
  let ?lst = "demo_listener (Some ?mark)"
  let ?r1 = "poll_and_process_records ?lst 0 []"
  let ?r2 = "poll_and_process_records (fst (snd ?r1)) 5 (snd (snd ?r1))"
  have c: "l_conn ?lst = Some (demo_device\<lparr>dev_attendance := demo_attendance\<rparr>)"
    by (simp add: demo_listener_def)
  have m: "last_processed_time ?lst = Some ?mark" by (simp add: demo_listener_def)
  have nf: "no_fault 2 (demo_device\<lparr>dev_attendance := demo_attendance\<rparr>)"
    by (simp add: no_fault_def demo_device_def)
  have r1: "?r1 = (fst ?r1, fst (snd ?r1), snd (snd ?r1))" by simp
  have r2: "?r2 = (fst ?r2, fst (snd ?r2), snd (snd ?r2))" by simp
  from poll_cases [OF c demo_fetch m r1]
  have p: "process_records
             (?lst\<lparr>l_conn := Some (demo_device\<lparr>dev_attendance := demo_attendance,
                                                dev_log := [GetAttendance]\<rparr>)\<rparr>) 0 []
             (sort_key a_timestamp (new_records ?mark demo_attendance))
           = (fst (snd ?r1), snd (snd ?r1))" by simp
  from process_records_data [OF p]
  have "length (event_keys (fst (snd ?r1))) = 3"
    and lp: "last_processed_time (fst (snd ?r1)) = Some (2025, 3, 10, 9, 30, 0, 0)"
    unfolding demo_sorted by (simp_all add: event_keys_def demo_listener_def)
  then have len: "length (attendance_records (fst (snd ?r1))) = 3"
    by (simp add: event_keys_def)
  from repoll_processes_nothing [OF c nf m r1 r2]
  have "attendance_records (fst (snd ?r2)) = attendance_records (fst (snd ?r1))"
    "last_processed_time (fst (snd ?r2)) = last_processed_time (fst (snd ?r1))" by auto
  then show ?thesis unfolding Let_def using nf len lp by simp
qed

subsection \<open>Blocked records and their snapshots\<close>

subsection \<open>Blocked records and their snapshots\<close>

lemma backup_vault_grows:
  assumes "backup_user_templates tm conn user_id = (ok, conn', tm')"
  shows "(\<forall>u. has_backup tm u \<longrightarrow> has_backup tm' u) \<and> (ok \<longrightarrow> has_backup tm' user_id)"
  using backup_cases [OF assms]
  by (cases ok) (auto simp: has_backup_def save_templates_def)

lemma block_user_vault_grows:
  assumes "block_user tm conn user_id = (ok, conn', tm')"
  shows "(\<forall>u. has_backup tm u \<longrightarrow> has_backup tm' u) \<and> (ok \<longrightarrow> has_backup tm' user_id)"
proof -
  obtain bok c1 tm1 where bk: "backup_user_templates tm conn user_id = (bok, c1, tm1)"
    by (cases "backup_user_templates tm conn user_id")
  have "tm' = tm1" "ok \<longrightarrow> bok"
    using assms bk
    by (cases bok; auto simp: block_user_def split: prod.splits sum.splits option.splits)+
  then show ?thesis using backup_vault_grows [OF bk] by auto
qed

lemma restore_vault_same:
  "restore_user_templates tm conn user_id = (ok, conn', tm') \<Longrightarrow> tm' = tm"
  using restore_cases by blast

lemma kwargs_status: "kwargs_dict kwargs ''status'' = None"
  by (simp add: kwargs_dict_def map_of_eq_None_iff image_iff)

lemma is_blocked_upd:
  "is_blocked (reg(k \<mapsto> m)) u
     = (if u = k then m ''status'' = Some (PStr ''blocked'') else is_blocked reg u)"
  by (simp add: is_blocked_def)

lemma set_expiration_status: "set_expiration e m ''status'' = m ''status''"
  by (simp add: set_expiration_def split: option.splits)

lemma add_user_inv:
  assumes "status \<noteq> ''blocked''"
  shows "is_blocked (mm_users (add_user mm now user_id name expiration status kwargs)) u
           \<longrightarrow> is_blocked (mm_users mm) u"
    and "mm_template_manager (add_user mm now user_id name expiration status kwargs)
           = mm_template_manager mm"
  using assms
  by (auto simp: add_user_def save_data_def Let_def is_blocked_upd map_add_def kwargs_status
           split: if_splits)

lemma validate_inv:
  "is_blocked (mm_users (snd (validate_membership mm now user_id))) u \<longrightarrow> is_blocked (mm_users mm) u"
  "mm_template_manager (snd (validate_membership mm now user_id)) = mm_template_manager mm"
  by (auto simp: validate_membership_def save_data_def Let_def is_blocked_upd
           split: option.splits sum.splits if_splits)

lemma update_expiration_inv:
  "is_blocked (mm_users (snd (update_expiration mm now user_id e))) u \<longrightarrow> is_blocked (mm_users mm) u"
  "mm_template_manager (snd (update_expiration mm now user_id e)) = mm_template_manager mm"
  by (auto simp: update_expiration_def save_data_def Let_def is_blocked_upd
           split: option.splits if_splits)

lemma deactivate_inv:
  "is_blocked (mm_users (deactivate_user mm now user_id)) u \<longrightarrow> is_blocked (mm_users mm) u"
  "mm_template_manager (deactivate_user mm now user_id) = mm_template_manager mm"
  by (auto simp: deactivate_user_def save_data_def Let_def is_blocked_upd
           split: option.splits if_splits)

lemma reactivate_inv:
  "is_blocked (mm_users (reactivate_user mm now user_id e)) u \<longrightarrow> is_blocked (mm_users mm) u"
  "mm_template_manager (reactivate_user mm now user_id e) = mm_template_manager mm"
  by (auto simp: reactivate_user_def save_data_def Let_def is_blocked_upd set_expiration_status
           split: option.splits if_splits)

lemma block_with_backup_inv:
  assumes "block_user_with_backup mm now conn user_id = (ok, conn', mm')"
    and "\<forall>u. is_blocked (mm_users mm) u \<longrightarrow> has_backup (mm_template_manager mm) u"
  shows "\<forall>u. is_blocked (mm_users mm') u \<longrightarrow> has_backup (mm_template_manager mm') u"
proof -
  obtain bok c1 tm1 where b: "block_user (mm_template_manager mm) conn (strip user_id) = (bok, c1, tm1)"
    by (cases "block_user (mm_template_manager mm) conn (strip user_id)")
  note g = block_user_vault_grows [OF b]
  show ?thesis
    using assms b g
    by (cases bok)
       (auto simp: block_user_with_backup_def Let_def save_data_def is_blocked_upd
             split: option.splits if_splits)
qed

lemma unblock_with_restore_inv:
  assumes "unblock_user_with_restore mm now conn user_id e = (ok, conn', mm')"
    and "\<forall>u. is_blocked (mm_users mm) u \<longrightarrow> has_backup (mm_template_manager mm) u"
  shows "\<forall>u. is_blocked (mm_users mm') u \<longrightarrow> has_backup (mm_template_manager mm') u"
proof -
  obtain rok c1 tm1 where b: "restore_user_templates (mm_template_manager mm) conn (strip user_id) = (rok, c1, tm1)"
    by (cases "restore_user_templates (mm_template_manager mm) conn (strip user_id)")
  note g = restore_vault_same [OF b]
  show ?thesis
    using assms b g
    by (cases rok)
       (auto simp: unblock_user_with_restore_def unblock_user_def Let_def save_data_def
                   is_blocked_upd set_expiration_status
             split: option.splits if_splits)
qed

lemma auto_block_inv:
  assumes r: "block_user_automatically ab now conn user_id reason = (ok, conn', ab')"
    and inv: "\<forall>u. is_blocked (ab_memberships ab) u \<longrightarrow> has_backup (ab_template_manager ab) u"
  shows "\<forall>u. is_blocked (ab_memberships ab') u \<longrightarrow> has_backup (ab_template_manager ab') u"
proof -
  let ?tm = "ab_template_manager ab"
  obtain bok c1 tm1 where b:
    "(if \<not> has_backup ?tm user_id then backup_user_templates ?tm conn user_id
      else (True, conn, ?tm)) = (bok, c1, tm1)"
    by (cases "if \<not> has_backup ?tm user_id then backup_user_templates ?tm conn user_id
               else (True, conn, ?tm)")
  have grow: "\<forall>u. has_backup ?tm u \<longrightarrow> has_backup tm1 u" and has: "bok \<longrightarrow> has_backup tm1 user_id"
    using b backup_vault_grows [of ?tm conn user_id bok c1 tm1]
    by (auto split: if_splits)
  have tm': "ab_template_manager ab' = tm1"
    using r b
    by (cases bok; auto simp: block_user_automatically_def Let_def save_memberships_def
        split: prod.splits sum.splits option.splits)
  have reg: "is_blocked (ab_memberships ab') u \<longrightarrow> is_blocked (ab_memberships ab) u \<or> (u = user_id \<and> bok)" for u
    using r b
    by (cases bok; auto simp: block_user_automatically_def Let_def save_memberships_def is_blocked_upd
        split: prod.splits sum.splits option.splits if_splits)
  show ?thesis using tm' reg grow has inv by blast
qed

lemma auto_unblock_inv:
  assumes r: "unblock_user_automatically ab now conn user_id e = (ok, conn', ab')"
    and inv: "\<forall>u. is_blocked (ab_memberships ab) u \<longrightarrow> has_backup (ab_template_manager ab) u"
  shows "\<forall>u. is_blocked (ab_memberships ab') u \<longrightarrow> has_backup (ab_template_manager ab') u"
proof -
  obtain rok c1 tm1 where b: "restore_user_templates (ab_template_manager ab) conn user_id = (rok, c1, tm1)"
    by (cases "restore_user_templates (ab_template_manager ab) conn user_id")
  note g = restore_vault_same [OF b]
  show ?thesis
    using assms b g
    by (cases rok)
       (auto simp: unblock_user_automatically_def Let_def save_memberships_def is_blocked_upd
             split: option.splits if_splits)
qed

lemma delete_backup_inv:
  assumes "\<not> is_blocked reg user_id"
    and "\<forall>u. is_blocked reg u \<longrightarrow> has_backup tm u"
  shows "\<forall>u. is_blocked reg u \<longrightarrow> has_backup (snd (delete_backup tm user_id)) u"
  using assms by (auto simp: delete_backup_def has_backup_def save_templates_def)


lemma mm_view_simps:
  "mm_users (mm_view s) = mm_users (sys_mm s)"
  "has_backup (mm_template_manager (mm_view s)) u = has_backup (mm_template_manager (sys_mm s)) u"
  "templates_db (mm_template_manager (mm_view s)) = templates_db (mm_template_manager (sys_mm s))"
  by (simp_all add: mm_view_def has_backup_def)

lemma ab_view_simps:
  "ab_memberships (ab_view s) = ab_memberships (sys_ab s)"
  "has_backup (ab_template_manager (ab_view s)) u = has_backup (ab_template_manager (sys_ab s)) u"
  "templates_db (ab_template_manager (ab_view s)) = templates_db (ab_template_manager (sys_ab s))"
  by (simp_all add: ab_view_def has_backup_def)

lemma put_simps:
  "sys_mm (put_mm s c mm) = mm" "sys_ab (put_mm s c mm) = sys_ab s"
  "sys_ab (put_ab s c ab) = ab" "sys_mm (put_ab s c ab) = sys_mm s"
  by (simp_all add: put_mm_def put_ab_def)

lemma blocked_have_snapshot_alt:
  "blocked_have_snapshot s \<longleftrightarrow> mm_inv (sys_mm s) \<and> ab_inv (sys_ab s)"
  by (simp add: blocked_have_snapshot_def mm_inv_def ab_inv_def)

lemma mm_inv_view: "mm_inv (mm_view s) = mm_inv (sys_mm s)"
  by (simp add: mm_inv_def mm_view_simps)

lemma ab_inv_view: "ab_inv (ab_view s) = ab_inv (sys_ab s)"
  by (simp add: ab_inv_def ab_view_simps)

lemma mm_step_inv:
  assumes "mm_inv mm"
  shows "status \<noteq> ''blocked'' \<Longrightarrow> mm_inv (add_user mm now user_id name expiration status kwargs)"
    and "mm_inv (snd (validate_membership mm now user_id))"
    and "mm_inv (snd (update_expiration mm now user_id e))"
    and "mm_inv (deactivate_user mm now user_id)"
    and "mm_inv (reactivate_user mm now user_id e')"
    and "mm_inv (snd (snd (block_user_with_backup mm now conn user_id)))"
    and "mm_inv (snd (snd (unblock_user_with_restore mm now conn user_id e')))"
    and "\<not> is_blocked (mm_users mm) user_id \<Longrightarrow>
           mm_inv (mm\<lparr>mm_template_manager := snd (delete_backup (mm_template_manager mm) user_id)\<rparr>)"
proof -
  show "status \<noteq> ''blocked'' \<Longrightarrow> mm_inv (add_user mm now user_id name expiration status kwargs)"
    using assms add_user_inv [of status mm now user_id name expiration kwargs]
    by (auto simp: mm_inv_def)
  show "mm_inv (snd (validate_membership mm now user_id))"
    using assms validate_inv [of mm now user_id] by (auto simp: mm_inv_def)
  show "mm_inv (snd (update_expiration mm now user_id e))"
    using assms update_expiration_inv [of mm now user_id e] by (auto simp: mm_inv_def)
  show "mm_inv (deactivate_user mm now user_id)"
    using assms deactivate_inv [of mm now user_id] by (auto simp: mm_inv_def)
  show "mm_inv (reactivate_user mm now user_id e')"
    using assms reactivate_inv [of mm now user_id e'] by (auto simp: mm_inv_def)
  show "mm_inv (snd (snd (block_user_with_backup mm now conn user_id)))"
    using assms block_with_backup_inv [of mm now conn user_id]
    by (cases "block_user_with_backup mm now conn user_id") (auto simp: mm_inv_def)
  show "mm_inv (snd (snd (unblock_user_with_restore mm now conn user_id e')))"
    using assms unblock_with_restore_inv [of mm now conn user_id e']
    by (cases "unblock_user_with_restore mm now conn user_id e'") (auto simp: mm_inv_def)
  show "\<not> is_blocked (mm_users mm) user_id \<Longrightarrow>
           mm_inv (mm\<lparr>mm_template_manager := snd (delete_backup (mm_template_manager mm) user_id)\<rparr>)"
    using assms delete_backup_inv [of "mm_users mm" user_id "mm_template_manager mm"]
    by (auto simp: mm_inv_def)
qed

lemma ab_step_inv:
  assumes "ab_inv ab"
  shows "ab_inv (snd (snd (block_user_automatically ab now conn user_id reason)))"
    and "ab_inv (snd (snd (unblock_user_automatically ab now conn user_id e)))"
    and "\<not> is_blocked (ab_memberships ab) user_id \<Longrightarrow>
           ab_inv (ab\<lparr>ab_template_manager := snd (delete_backup (ab_template_manager ab) user_id)\<rparr>)"
proof -
  show "ab_inv (snd (snd (block_user_automatically ab now conn user_id reason)))"
    using assms auto_block_inv [of ab now conn user_id reason]
    by (cases "block_user_automatically ab now conn user_id reason") (auto simp: ab_inv_def)
  show "ab_inv (snd (snd (unblock_user_automatically ab now conn user_id e)))"
    using assms auto_unblock_inv [of ab now conn user_id e]
    by (cases "unblock_user_automatically ab now conn user_id e") (auto simp: ab_inv_def)
  show "\<not> is_blocked (ab_memberships ab) user_id \<Longrightarrow>
           ab_inv (ab\<lparr>ab_template_manager := snd (delete_backup (ab_template_manager ab) user_id)\<rparr>)"
    using assms delete_backup_inv [of "ab_memberships ab" user_id "ab_template_manager ab"]
    by (auto simp: ab_inv_def)
qed

lemma start_orchestrator_inv:
  "documents_consistent s \<Longrightarrow> ab_inv (new_auto_block_manager (memberships_json s) (templates_json s))"
  by (simp add: documents_consistent_def ab_inv_def new_auto_block_manager_def
      new_template_manager_def has_backup_def)

lemma apply_op_inv:
  assumes inv: "blocked_have_snapshot s" and safe: "safe_op s op"
  shows "blocked_have_snapshot (apply_op now op s)"
proof -
  from inv have mm: "mm_inv (mm_view s)" and ab: "ab_inv (ab_view s)"
    and mm0: "mm_inv (sys_mm s)" and ab0: "ab_inv (sys_ab s)"
    by (simp_all add: blocked_have_snapshot_alt mm_inv_view ab_inv_view)
  note m = mm_step_inv [OF mm] and a = ab_step_inv [OF ab]
  show ?thesis
  proof (cases op)
    case (AddUser user_id name expiration status kwargs)
    with safe m(1) ab0 show ?thesis by (simp add: blocked_have_snapshot_alt put_simps)
  next
    case (Validate user_id)
    with m(2) ab0 show ?thesis by (simp add: blocked_have_snapshot_alt put_simps)
  next
    case (BlockWithBackup user_id)
    with m(6) [of now "sys_conn s" user_id] ab0 show ?thesis
      by (auto simp: blocked_have_snapshot_alt put_simps split: prod.splits)
  next
    case (UnblockWithRestore user_id e)
    with m(7) [of now "sys_conn s" user_id e] ab0 show ?thesis
      by (auto simp: blocked_have_snapshot_alt put_simps split: prod.splits)
  next
    case (UpdateExpiration user_id e)
    with m(3) ab0 show ?thesis by (simp add: blocked_have_snapshot_alt put_simps)
  next
    case (Deactivate user_id)
    with m(4) ab0 show ?thesis by (simp add: blocked_have_snapshot_alt put_simps)
  next
    case (Reactivate user_id e)
    with m(5) ab0 show ?thesis by (simp add: blocked_have_snapshot_alt put_simps)
  next
    case StartOrchestrator
    with safe start_orchestrator_inv [of s] mm0 show ?thesis
      by (simp add: blocked_have_snapshot_alt)
  next
    case (AutoBlock user_id reason)
    with a(1) [of now "sys_conn s" user_id reason] mm0 show ?thesis
      by (auto simp: blocked_have_snapshot_alt put_simps split: prod.splits)
  next
    case (AutoUnblock user_id e)
    with a(2) [of now "sys_conn s" user_id e] mm0 show ?thesis
      by (auto simp: blocked_have_snapshot_alt put_simps split: prod.splits)
  next
    case (DeleteBackupMM user_id)
    with safe m(8) [of user_id] ab0 show ?thesis
      by (simp add: blocked_have_snapshot_alt put_simps mm_view_simps)
  next
    case (DeleteBackupAB user_id)
    with safe a(3) [of user_id] mm0 show ?thesis
      by (simp add: blocked_have_snapshot_alt put_simps ab_view_simps)
  next
    case (DeviceChange d)
    with mm0 ab0 show ?thesis by (simp add: blocked_have_snapshot_alt)
  qed
qed

lemma run_ops_inv:
  "blocked_have_snapshot s \<Longrightarrow> safe_run s ops \<Longrightarrow> blocked_have_snapshot (run_ops s ops)"
proof (induction ops arbitrary: s)
  case Nil
  then show ?case by simp
next
  case (Cons a ops)
  obtain now op where a: "a = (now, op)" by (cases a)
  with Cons.prems have "safe_op s op" "safe_run (apply_op now op s) ops" by auto
  with Cons.IH [of "apply_op now op s"] apply_op_inv [OF Cons.prems(1), of op now] a
  show ?case by simp
qed

lemma initial_inv: "blocked_have_snapshot (initial_system templates_doc conn)"
  by (simp add: blocked_have_snapshot_def initial_system_def is_blocked_def
      new_membership_manager_def new_auto_block_manager_def)

text \<open>
  Claim C2, as the code has it. Start with no membership document, so that both
  registries are empty, with any template document and any device, and run public
  operations in any order: \<open>add_user\<close> with a status other than \<open>blocked\<close>, validate,
  block, unblock, renew, deactivate, reactivate, the automatic block and unblock,
  \<open>delete_backup\<close> for user ids whose record is not blocked, a start of the orchestrator
  (which loads its registry and vault from the documents) at a moment when the documents
  agree, and arbitrary changes of the device in between. In every state reached, each
  manager's records with status \<open>blocked\<close> have a snapshot in that manager's vault.
\<close>

theorem blocked_records_have_snapshots:
  assumes "safe_run (initial_system templates_doc conn) ops"
  shows "blocked_have_snapshot (run_ops (initial_system templates_doc conn) ops)"
  using run_ops_inv [OF initial_inv assms] .


text \<open>
  As long as only the membership manager has run, the documents agree: every call that
  changes a status saves the registry, and every call that changes the vault saves it.
\<close>

lemma backup_synced:
  assumes "backup_user_templates tm conn user_id = (ok, conn', tm')"
    and "templates_file tm = templates_db tm"
  shows "templates_file tm' = templates_db tm'"
  using backup_cases [OF assms(1)] assms(2)
  by (cases ok) (auto simp: save_templates_def)

lemma block_user_synced:
  assumes "block_user tm conn user_id = (ok, conn', tm')"
    and "templates_file tm = templates_db tm"
  shows "templates_file tm' = templates_db tm'"
proof -
  obtain bok c1 tm1 where bk: "backup_user_templates tm conn user_id = (bok, c1, tm1)"
    by (cases "backup_user_templates tm conn user_id")
  have "tm' = tm1"
    using assms(1) bk
    by (cases bok; auto simp: block_user_def split: prod.splits sum.splits option.splits)
  then show ?thesis using backup_synced [OF bk assms(2)] by simp
qed

lemma mm_step_synced:
  assumes "mm_synced mm"
  shows "mm_synced (add_user mm now user_id name expiration status kwargs)"
    and "mm_synced (snd (validate_membership mm now user_id))"
    and "mm_synced (snd (update_expiration mm now user_id e))"
    and "mm_synced (deactivate_user mm now user_id)"
    and "mm_synced (reactivate_user mm now user_id e')"
    and "mm_synced (snd (snd (block_user_with_backup mm now conn user_id)))"
    and "mm_synced (snd (snd (unblock_user_with_restore mm now conn user_id e')))"
    and "mm_synced (mm\<lparr>mm_template_manager := snd (delete_backup (mm_template_manager mm) user_id)\<rparr>)"
proof -
  show "mm_synced (add_user mm now user_id name expiration status kwargs)"
    using assms by (simp add: mm_synced_def add_user_def save_data_def Let_def)
  show "mm_synced (snd (validate_membership mm now user_id))"
  proof (cases "mm_users mm (strip user_id)")
    case None
    then show ?thesis using assms by (simp add: validate_membership_def Let_def)
  next
    case (Some user)
    have same: "is_blocked ((mm_users mm)(strip user_id \<mapsto> user(''last_visit'' \<mapsto> v))) u
                  = is_blocked (mm_users mm) u" for v u
      using Some by (simp add: is_blocked_def)
    show ?thesis
      using assms Some same
      by (auto simp: mm_synced_def validate_membership_def save_data_def Let_def
               split: sum.splits)
  qed
  show "mm_synced (snd (update_expiration mm now user_id e))"
    using assms
    by (auto simp: mm_synced_def update_expiration_def save_data_def Let_def split: option.splits)
  show "mm_synced (deactivate_user mm now user_id)"
    using assms
    by (auto simp: mm_synced_def deactivate_user_def save_data_def Let_def split: option.splits)
  show "mm_synced (reactivate_user mm now user_id e')"
    using assms
    by (auto simp: mm_synced_def reactivate_user_def save_data_def Let_def split: option.splits)
  show "mm_synced (snd (snd (block_user_with_backup mm now conn user_id)))"
  proof -
    obtain bok c1 tm1 where b: "block_user (mm_template_manager mm) conn (strip user_id) = (bok, c1, tm1)"
      by (cases "block_user (mm_template_manager mm) conn (strip user_id)")
    from block_user_synced [OF b] assms have "templates_file tm1 = templates_db tm1"
      by (simp add: mm_synced_def)
    then show ?thesis using assms b
      by (cases bok)
         (auto simp: mm_synced_def block_user_with_backup_def save_data_def Let_def
               split: option.splits)
  qed
  show "mm_synced (snd (snd (unblock_user_with_restore mm now conn user_id e')))"
  proof -
    obtain rok c1 tm1 where b:
      "restore_user_templates (mm_template_manager mm) conn (strip user_id) = (rok, c1, tm1)"
      by (cases "restore_user_templates (mm_template_manager mm) conn (strip user_id)")
    from restore_vault_same [OF b] show ?thesis using assms b
      by (cases rok)
         (auto simp: mm_synced_def unblock_user_with_restore_def unblock_user_def save_data_def
                     Let_def split: option.splits)
  qed
  show "mm_synced (mm\<lparr>mm_template_manager := snd (delete_backup (mm_template_manager mm) user_id)\<rparr>)"
    using assms by (auto simp: mm_synced_def delete_backup_def save_templates_def)
qed

lemma mm_only_inv_put:
  "mm_only_inv (put_mm s c mm) \<longleftrightarrow> mm_inv mm \<and> mm_synced mm"
  by (auto simp: mm_only_inv_def put_mm_def mm_synced_def)

lemma mm_only_inv_view:
  "mm_only_inv s \<Longrightarrow> mm_inv (mm_view s) \<and> mm_synced (mm_view s)"
  by (auto simp: mm_only_inv_def mm_inv_def mm_synced_def mm_view_def has_backup_def)

lemma mm_only_step:
  assumes inv: "mm_only_inv s" and safe: "safe_op s op" and mo: "mm_op op"
  shows "mm_only_inv (apply_op now op s)"
proof -
  from mm_only_inv_view [OF inv] have mm: "mm_inv (mm_view s)" and sy: "mm_synced (mm_view s)"
    by auto
  note m = mm_step_inv [OF mm] and y = mm_step_synced [OF sy]
  show ?thesis
  proof (cases op)
    case (AddUser user_id name expiration status kwargs)
    with safe m(1) y(1) show ?thesis by (simp add: mm_only_inv_put)
  next
    case (Validate user_id)
    with m(2) y(2) show ?thesis by (simp add: mm_only_inv_put)
  next
    case (BlockWithBackup user_id)
    with m(6) [of now "sys_conn s" user_id] y(6) [of now "sys_conn s" user_id] show ?thesis
      by (auto simp: mm_only_inv_put split: prod.splits)
  next
    case (UnblockWithRestore user_id e)
    with m(7) [of now "sys_conn s" user_id e] y(7) [of now "sys_conn s" user_id e] show ?thesis
      by (auto simp: mm_only_inv_put split: prod.splits)
  next
    case (UpdateExpiration user_id e)
    with m(3) y(3) show ?thesis by (simp add: mm_only_inv_put)
  next
    case (Deactivate user_id)
    with m(4) y(4) show ?thesis by (simp add: mm_only_inv_put)
  next
    case (Reactivate user_id e)
    with m(5) y(5) show ?thesis by (simp add: mm_only_inv_put)
  next
    case (DeleteBackupMM user_id)
    with safe m(8) [of user_id] y(8) [of user_id] show ?thesis
      by (simp add: mm_only_inv_put mm_view_simps)
  next
    case (DeviceChange d)
    with inv show ?thesis by (simp add: mm_only_inv_def)
  qed (use mo in simp_all)
qed

lemma mm_only_run:
  "mm_only_inv s \<Longrightarrow> safe_run s ops \<Longrightarrow> list_all (\<lambda>x. mm_op (snd x)) ops
     \<Longrightarrow> mm_only_inv (run_ops s ops)"
proof (induction ops arbitrary: s)
  case Nil
  then show ?case by simp
next
  case (Cons a ops)
  obtain now op where a: "a = (now, op)" by (cases a)
  with Cons.prems have "safe_op s op" "mm_op op" "safe_run (apply_op now op s) ops"
    "list_all (\<lambda>x. mm_op (snd x)) ops" by auto
  with Cons.IH [of "apply_op now op s"] mm_only_step [OF Cons.prems(1), of op now] a
  show ?case by simp
qed

lemma documents_consistent_after_mm_ops:
  assumes "safe_run (initial_system templates_doc conn) ops"
    and "list_all (\<lambda>x. mm_op (snd x)) ops"
  shows "documents_consistent (run_ops (initial_system templates_doc conn) ops)"
proof -
  have "mm_only_inv (initial_system templates_doc conn)"
    by (simp add: mm_only_inv_def mm_inv_def initial_system_def is_blocked_def
        new_membership_manager_def new_template_manager_def)
  from mm_only_run [OF this assms]
  show ?thesis
    by (auto simp: mm_only_inv_def mm_inv_def documents_consistent_def has_backup_def)
qed


lemmas run_defs = initial_system_def new_membership_manager_def new_auto_block_manager_def
  new_template_manager_def mm_view_def put_mm_def ab_view_def put_ab_def
  add_user_def deactivate_user_def block_user_with_backup_def block_user_def
  block_user_automatically_def save_memberships_def
  backup_user_templates_def get_users_def get_templates_def delete_user_def issue_def
  save_data_def save_templates_def delete_backup_def has_backup_def is_blocked_def
  kwargs_dict_def strip_def py_isspace_def demo_device_def two_user_device_def demo_user_def
  demo_finger_def Let_def

theorem blocked_records_have_snapshots_witness:
  "(let ops = [((2025, 3, 10, 9, 0, 0, 0), AddUser ''1001'' ''Ana'' ''2025-02-28'' ''active'' []),
               ((2025, 3, 10, 9, 2, 0, 0), StartOrchestrator),
               ((2025, 3, 10, 9, 5, 0, 0), AutoBlock ''1001'' ''vencida'')];
        s = run_ops (initial_system Map.empty demo_device) ops
    in safe_run (initial_system Map.empty demo_device) ops
       \<and> is_blocked (ab_memberships (sys_ab s)) ''1001''
       \<and> has_backup (ab_template_manager (sys_ab s)) ''1001''
       \<and> dev_users (sys_conn s) = [])"
proof -
  let ?add = "((2025, 3, 10, 9, 0, 0, 0), AddUser ''1001'' ''Ana'' ''2025-02-28'' ''active'' [])"
  let ?ops = "[?add, ((2025, 3, 10, 9, 2, 0, 0), StartOrchestrator),
               ((2025, 3, 10, 9, 5, 0, 0), AutoBlock ''1001'' ''vencida'')]"
  let ?s = "run_ops (initial_system Map.empty demo_device) ?ops"
  have "documents_consistent (run_ops (initial_system Map.empty demo_device) [?add])"
    by (rule documents_consistent_after_mm_ops) simp_all
  then have safe: "safe_run (initial_system Map.empty demo_device) ?ops" by simp
  have b: "is_blocked (ab_memberships (sys_ab ?s)) ''1001''"
    by (simp add: run_defs)
  have d: "dev_users (sys_conn ?s) = []"
    by (simp add: run_defs)
  from blocked_records_have_snapshots [OF safe] b
  have "has_backup (ab_template_manager (sys_ab ?s)) ''1001''"
    by (simp add: blocked_have_snapshot_def)
  with safe b d show ?thesis unfolding Let_def by blast
qed

text \<open>
  Claim C2 as stated fails: \<open>add_user\<close> takes the status as an argument and stores it
  as it is. Adding a user with status \<open>blocked\<close> to the empty registry, with an empty vault,
  gives a blocked record without a snapshot.
\<close>

theorem add_user_blocked_counterexample:
  "is_blocked
     (mm_users (sys_mm (run_ops (initial_system Map.empty demo_device)
        [((2025, 3, 10, 9, 0, 0, 0), AddUser ''1001'' ''Ana'' ''2025-12-31'' ''blocked'' [])])))
     ''1001''
   \<and> \<not> has_backup
     (mm_template_manager (sys_mm (run_ops (initial_system Map.empty demo_device)
        [((2025, 3, 10, 9, 0, 0, 0), AddUser ''1001'' ''Ana'' ''2025-12-31'' ''blocked'' [])])))
     ''1001''
   \<and> \<not> blocked_have_snapshot
     (run_ops (initial_system Map.empty demo_device)
        [((2025, 3, 10, 9, 0, 0, 0), AddUser ''1001'' ''Ana'' ''2025-12-31'' ''blocked'' [])])"
proof -
  let ?s = "run_ops (initial_system Map.empty demo_device)
        [((2025, 3, 10, 9, 0, 0, 0), AddUser ''1001'' ''Ana'' ''2025-12-31'' ''blocked'' [])]"
  have b: "is_blocked (mm_users (sys_mm ?s)) ''1001''" by (simp add: run_defs)
  have h: "\<not> has_backup (mm_template_manager (sys_mm ?s)) ''1001''" by (simp add: run_defs)
  from b h have "\<not> blocked_have_snapshot ?s" by (auto simp: blocked_have_snapshot_def)
  with b h show ?thesis by blast
qed

text \<open>Deleting the snapshot of a blocked user breaks the invariant as well.\<close>

lemma delete_backup_of_blocked_user:
  "\<not> blocked_have_snapshot
     (run_ops (initial_system Map.empty demo_device)
        [((2025, 3, 10, 9, 0, 0, 0), AddUser ''1001'' ''Ana'' ''2025-02-28'' ''active'' []),
         ((2025, 3, 10, 9, 5, 0, 0), BlockWithBackup ''1001''),
         ((2025, 3, 10, 9, 6, 0, 0), DeleteBackupMM ''1001'')])"
proof -
  let ?s = "run_ops (initial_system Map.empty demo_device)
        [((2025, 3, 10, 9, 0, 0, 0), AddUser ''1001'' ''Ana'' ''2025-02-28'' ''active'' []),
         ((2025, 3, 10, 9, 5, 0, 0), BlockWithBackup ''1001''),
         ((2025, 3, 10, 9, 6, 0, 0), DeleteBackupMM ''1001'')]"
  have b: "is_blocked (mm_users (sys_mm ?s)) ''1001''" by (simp add: run_defs)
  have h: "\<not> has_backup (mm_template_manager (sys_mm ?s)) ''1001''" by (simp add: run_defs)
  from b h show ?thesis by (auto simp: blocked_have_snapshot_def)
qed

text \<open>
  So does a start of the orchestrator when the documents do not agree. Each manager
  writes the whole template document from its own vault: after the membership manager has
  blocked user 1001 and the orchestrator has blocked user 1002, the template document holds
  only the orchestrator's snapshot, and the next save of the membership manager leaves a
  membership document in which 1001 is blocked. An orchestrator started then has the
  blocked record of 1001 and no snapshot for it.
\<close>

lemma start_on_disagreeing_documents:
  "\<not> blocked_have_snapshot
     (run_ops (initial_system Map.empty two_user_device)
        [((2025, 3, 10, 9, 0, 0, 0), AddUser ''1001'' ''Ana'' ''2025-02-28'' ''active'' []),
         ((2025, 3, 10, 9, 2, 0, 0), AddUser ''1002'' ''Luis'' ''2025-02-28'' ''active'' []),
         ((2025, 3, 10, 9, 3, 0, 0), StartOrchestrator),
         ((2025, 3, 10, 9, 4, 0, 0), BlockWithBackup ''1001''),
         ((2025, 3, 10, 9, 5, 0, 0), AutoBlock ''1002'' ''vencida''),
         ((2025, 3, 10, 9, 6, 0, 0), Deactivate ''1002''),
         ((2025, 3, 10, 9, 7, 0, 0), StartOrchestrator)])"
proof -
  let ?s = "run_ops (initial_system Map.empty two_user_device)
        [((2025, 3, 10, 9, 0, 0, 0), AddUser ''1001'' ''Ana'' ''2025-02-28'' ''active'' []),
         ((2025, 3, 10, 9, 2, 0, 0), AddUser ''1002'' ''Luis'' ''2025-02-28'' ''active'' []),
         ((2025, 3, 10, 9, 3, 0, 0), StartOrchestrator),
         ((2025, 3, 10, 9, 4, 0, 0), BlockWithBackup ''1001''),
         ((2025, 3, 10, 9, 5, 0, 0), AutoBlock ''1002'' ''vencida''),
         ((2025, 3, 10, 9, 6, 0, 0), Deactivate ''1002''),
         ((2025, 3, 10, 9, 7, 0, 0), StartOrchestrator)]"
  have b: "is_blocked (ab_memberships (sys_ab ?s)) ''1001''" by (simp add: run_defs)
  have h: "\<not> has_backup (ab_template_manager (sys_ab ?s)) ''1001''" by (simp add: run_defs)
  from b h show ?thesis by (auto simp: blocked_have_snapshot_def)
qed

subsection \<open>GymforceAPI.validar\_acceso\<close>

lemmas api_defs = ensure_token_def login_def post_def py_int_def dict_get_def demo_api_def
  login_ok_def access_allow_def Let_def

text \<open>
  Claim C3 says that \<open>validar_acceso\<close> always returns a decision dictionary. With a token
  the client takes as valid, a 401 answer to the access query and a failed login after it
  (here an HTTP 500), the function reaches the end of the 401 branch without a \<open>return\<close>:
  the result is \<open>None\<close>.
\<close>

theorem validar_acceso_none_after_failed_relogin:
  "validar_acceso demo_api 0 [Response 401 JInvalid, Response 500 JInvalid] ''1001'' 1
     = (RNone, demo_api, [])"
  by (simp add: validar_acceso.simps api_defs)

text \<open>
  After a successful login the function calls itself, so a second 401 leads to a second
  login and a third query: the retry is not limited to one.
\<close>

lemma validar_acceso_retries_twice:
  "validar_acceso demo_api 0
     [Response 401 JInvalid, login_ok, Response 401 JInvalid, login_ok, access_allow] ''1001'' 1
   = (RDict (Map.empty(''status'' \<mapsto> PStr ''OK'', ''access'' \<mapsto> PStr ''allow'')),
      \<lparr>token = PStr ''tok2'', token_expiration = 7200\<rparr>, [])"
  by (simp add: validar_acceso.simps api_defs)


lemma login_net:
  "login api clock net = (ok, api', net') \<Longrightarrow> set net' \<subseteq> set net"
  by (auto simp: login_def post_def Let_def
      split: list.splits http_result.splits json.splits option.splits sum.splits if_splits)

lemma ensure_token_net:
  "ensure_token api clock net = (ok, api', net') \<Longrightarrow> set net' \<subseteq> set net"
  using login_net by (auto simp: ensure_token_def Let_def split: if_splits)

text \<open>When no request is answered with 401, the function returns what the service sent
  or a deny dictionary, never \<open>None\<close>.\<close>

lemma validar_acceso_without_401:
  assumes "\<forall>body. Response 401 body \<notin> set net"
  shows "\<exists>d. fst (validar_acceso api clock net socio_id sucursal_id) = RDict d
         \<or> fst (validar_acceso api clock net socio_id sucursal_id) = ROther"
proof -
  obtain ok api1 net1 where e: "ensure_token api clock net = (ok, api1, net1)"
    by (cases "ensure_token api clock net")
  obtain r net2 where p: "post net1 = (r, net2)" by (cases "post net1")
  have "r \<in> set net1 \<or> r = RaisesOther ''connection error''"
    using p by (auto simp: post_def split: list.splits)
  with ensure_token_net [OF e] assms have "\<forall>body. r \<noteq> Response 401 body" by auto
  then show ?thesis
    using e p
    by (subst (1 2) validar_acceso.simps)
       (auto split: bool.splits http_result.splits json.splits)
qed

end
